theory Spec2Isabelle
  imports Complex_Main "HOL-Library.Word"
begin

section \<open>blobnn: machine integers, errors and the global state\<close>

text \<open>
  The program keeps its configuration and the prior ledger content in global variables
  (\<^verbatim>\<open>start_id\<close>, \<^verbatim>\<open>end_id\<close>, \<^verbatim>\<open>max_id\<close>, \<^verbatim>\<open>pred_cutoff\<close>,
  \<^verbatim>\<open>rawlines\<close>, \<^verbatim>\<open>rawuids\<close>, \<^verbatim>\<open>statlines\<close>, \<^verbatim>\<open>statuids\<close>) and writes to the
  two reopened ledger files. The model passes them around as one record. A C \<^verbatim>\<open>int\<close> is
  a mathematical integer kept inside the 32-bit signed range; the addition
  \<^verbatim>\<open>end_id + 1\<close>, when it leaves the range, is undefined behaviour in C++ and is an
  error value here.
\<close>

datatype error =
  NullDeref            \<comment> \<open>\<^verbatim>\<open>*col = '\0'\<close> after \<^verbatim>\<open>strchr\<close> found no tab\<close>
  | SignedOverflow     \<comment> \<open>\<^verbatim>\<open>end_id + 1\<close> beyond \<^verbatim>\<open>INT32_MAX\<close>\<close>
  | NoManifest         \<comment> \<open>\<^verbatim>\<open>[e] do not find rois.tsv under the source folder!\<close>\<close>
  | MeanSizeAssert     \<comment> \<open>the size assertion of \<^verbatim>\<open>cv::mean\<close>: a \<^verbatim>\<open>cv::Exception\<close> nobody catches\<close>

definition INT32_MAX :: int where
  "INT32_MAX = 2147483647"

definition INT32_MIN :: int where
  "INT32_MIN = - 2147483648"

definition add_int32 :: "int \<Rightarrow> int \<Rightarrow> error + int" where
  "add_int32 a b =
     (if a + b < INT32_MIN \<or> INT32_MAX < a + b then Inl SignedOverflow else Inr (a + b))"

record globals =
  start_id :: int
  end_id :: int
  max_id :: int
  pred_cutoff :: int
  rawlines :: "string list"
  statlines :: "string list"
  rawuids :: "int list"
  statuids :: "int list"
  rawfile :: "string list"    \<comment> \<open>the strings written so far, one per \<^verbatim>\<open>fprintf\<close>\<close>
  statfile :: "string list"

text \<open>The initialisers of the globals (lines 41-53 of blobnn.cpp).\<close>

definition initial_globals :: globals where
  "initial_globals =
     \<lparr> start_id = 1, end_id = INT32_MAX - 10, max_id = 1, pred_cutoff = 180,
       rawlines = [], statlines = [], rawuids = [], statuids = [],
       rawfile = [], statfile = [] \<rparr>"

text \<open>The lower bound \<^verbatim>\<open>end_id + 1\<close> of the last loop of \<^verbatim>\<open>process\<close>.\<close>

definition high_loop_start :: "globals \<Rightarrow> error + int" where
  "high_loop_start g = add_int32 (end_id g) 1"

section \<open>Images and the OpenCV operations the program calls\<close>

text \<open>
  An 8-bit single-channel \<^verbatim>\<open>cv::Mat\<close> is the list of its rows, each the list of its
  pixels; the empty matrix is \<open>[]\<close>.
\<close>

type_synonym pixel = "8 word"
type_synonym Mat = "pixel list list"

definition mat_rows :: "Mat \<Rightarrow> nat" where
  "mat_rows m = length m"

definition mat_cols :: "Mat \<Rightarrow> nat" where
  "mat_cols m = (case m of [] \<Rightarrow> 0 | r # _ \<Rightarrow> length r)"

text \<open>\<^verbatim>\<open>Mat::empty()\<close>: the matrix has no row or no column, and so no data.\<close>

definition mat_empty :: "Mat \<Rightarrow> bool" where
  "mat_empty m = (mat_rows m = 0 \<or> mat_cols m = 0)"

definition mat_const :: "nat \<Rightarrow> nat \<Rightarrow> pixel \<Rightarrow> Mat" where
  "mat_const r c v = replicate r (replicate c v)"

text \<open>
  \<^verbatim>\<open>cv::threshold(src, dst, thresh, maxval, cv::THRESH_BINARY)\<close>: a pixel above the
  threshold becomes \<open>maxval\<close>, every other pixel 0.
\<close>

definition threshold_binary :: "Mat \<Rightarrow> pixel \<Rightarrow> pixel \<Rightarrow> Mat" where
  "threshold_binary src thresh maxval =
     map (map (\<lambda>p. if thresh < p then maxval else 0)) src"

text \<open>
  Lines 514-515 of \<^verbatim>\<open>process\<close>:
  \<^verbatim>\<open>cv::threshold(outcv, binary, 180, 255, cv::THRESH_BINARY)\<close>.
  The globals are in scope there; the call reads none of them.
\<close>

definition binarize :: "globals \<Rightarrow> Mat \<Rightarrow> Mat" where
  "binarize g outcv = threshold_binary outcv 180 255"

text \<open>
  \<^verbatim>\<open>cv::morphologyEx\<close> with \<^verbatim>\<open>cv::MORPH_ERODE\<close> (\<^verbatim>\<open>cv::MORPH_DILATE\<close>), the 3 x 3
  rectangular kernel of \<^verbatim>\<open>cv::getStructuringElement(cv::MORPH_RECT, cv::Size(3, 3))\<close>,
  the default anchor and the default border: every pixel becomes the minimum (maximum)
  of the 3 x 3 window around it, where positions outside the image do not count (the
  default border value is the largest value for an erosion and the smallest for a
  dilation). The operation is repeated \<open>iterations\<close> times.
\<close>

definition window3 :: "Mat \<Rightarrow> nat \<Rightarrow> nat \<Rightarrow> pixel list" where
  "window3 m x y =
     concat (map (\<lambda>j. map (\<lambda>i. m ! j ! i)
                          (filter (\<lambda>i. i < length (m ! j)) [x - 1 ..< x + 2]))
                 (filter (\<lambda>j. j < length m) [y - 1 ..< y + 2]))"

definition erode3 :: "Mat \<Rightarrow> Mat" where
  "erode3 m =
     map (\<lambda>y. map (\<lambda>x. fold min (window3 m x y) 255) [0 ..< length (m ! y)]) [0 ..< length m]"

definition dilate3 :: "Mat \<Rightarrow> Mat" where
  "dilate3 m =
     map (\<lambda>y. map (\<lambda>x. fold max (window3 m x y) 0) [0 ..< length (m ! y)]) [0 ..< length m]"

datatype morph_op = MORPH_ERODE | MORPH_DILATE

fun morphologyEx :: "Mat \<Rightarrow> morph_op \<Rightarrow> nat \<Rightarrow> Mat" where
  "morphologyEx src MORPH_ERODE iterations = (erode3 ^^ iterations) src"
| "morphologyEx src MORPH_DILATE iterations = (dilate3 ^^ iterations) src"

text \<open>
  \<^verbatim>\<open>cv::mean(src, mask)[0]\<close>. OpenCV walks the image and the mask together and
  asserts that arrays that have data have one size: for an image with data and a mask
  with data of another size the call throws a \<^verbatim>\<open>cv::Exception\<close>, which the program
  does not catch. When the call returns, its value is the mean of the pixels of \<open>src\<close>
  at the positions where the mask is not 0, and 0 when no position is selected; an empty
  mask is no mask and selects every pixel. Pixels and mask positions are paired in
  row-major order.
\<close>

definition mean_asserts :: "Mat \<Rightarrow> Mat \<Rightarrow> bool" where
  "mean_asserts src msk =
     (\<not> mat_empty src \<and> \<not> mat_empty msk \<and>
      (mat_rows msk, mat_cols msk) \<noteq> (mat_rows src, mat_cols src))"

definition mean_value :: "Mat \<Rightarrow> Mat \<Rightarrow> real" where
  "mean_value src msk =
     (let sel = (if mat_empty msk then concat src
                 else map fst (filter (\<lambda>(p, m). m \<noteq> 0) (zip (concat src) (concat msk))))
      in if sel = [] then 0 else real (sum_list (map unat sel)) / real (length sel))"

definition cv_mean :: "Mat \<Rightarrow> Mat \<Rightarrow> error + real" where
  "cv_mean src msk =
     (if mean_asserts src msk then Inl MeanSizeAssert else Inr (mean_value src msk))"

text \<open>
  Contours are lists of integer points \<open>(x, y)\<close>. \<^verbatim>\<open>cv::contourArea(cont, false)\<close> is
  half the absolute value of the sum, over the closed polygon, of
  \<open>prev.x * p.y - prev.y * p.x\<close>; the area of an empty contour is 0.
\<close>

type_synonym point = "int \<times> int"
type_synonym contour = "point list"

fun green_sum :: "point \<Rightarrow> contour \<Rightarrow> int" where
  "green_sum prev [] = 0"
| "green_sum prev (p # ps) = (fst prev * snd p - snd prev * fst p) + green_sum p ps"

definition contourArea :: "contour \<Rightarrow> real" where
  "contourArea cont =
     (if cont = [] then 0 else \<bar>real_of_int (green_sum (last cont) cont)\<bar> / 2)"

text \<open>\<^verbatim>\<open>cv::boundingRect\<close> of a point set: the smallest upright rectangle holding it.\<close>

record Rect =
  rect_x :: int
  rect_y :: int
  rect_width :: int
  rect_height :: int

definition boundingRect :: "contour \<Rightarrow> Rect" where
  "boundingRect cont =
     (case cont of
        [] \<Rightarrow> \<lparr> rect_x = 0, rect_y = 0, rect_width = 0, rect_height = 0 \<rparr>
      | p # ps \<Rightarrow>
          (let x0 = fold min (map fst ps) (fst p); x1 = fold max (map fst ps) (fst p);
               y0 = fold min (map snd ps) (snd p); y1 = fold max (map snd ps) (snd p)
           in \<lparr> rect_x = x0, rect_y = y0, rect_width = x1 - x0 + 1, rect_height = y1 - y0 + 1 \<rparr>))"

text \<open>
  What the program reaches only through libraries and files is a parameter of the
  model: the network (\<^verbatim>\<open>model.forward\<close> with the tensor conversions around it, lines
  484-509), \<^verbatim>\<open>cv::findContours\<close>, the set of pixels that \<^verbatim>\<open>cv::drawContours\<close> paints
  for one contour drawn with \<^verbatim>\<open>cv::FILLED\<close>, \<^verbatim>\<open>cv::imread\<close> of \<^verbatim>\<open>sources/<uid>.jpg\<close>,
  \<^verbatim>\<open>printf\<close>'s \<^verbatim>\<open>%.Nf\<close> conversion of a double, and the \<^verbatim>\<open>log\<close> of the C library.
  Doubles are real numbers. The last field tells whether the macro \<^verbatim>\<open>unix\<close> is defined
  where the program is compiled: then \<^verbatim>\<open>getline\<close> is the C library's, otherwise the
  program's own (lines 68-84).
\<close>

record env =
  forward :: "Mat \<Rightarrow> Mat"
  findContours :: "Mat \<Rightarrow> contour list"
  filled :: "contour \<Rightarrow> point \<Rightarrow> bool"
  imread :: "int \<Rightarrow> Mat"
  fmt_float :: "nat \<Rightarrow> real \<Rightarrow> string"
  log_fn :: "real \<Rightarrow> real"
  unix :: bool

text \<open>
  \<^verbatim>\<open>cv::drawContours(img, contours, idx, cv::Scalar(color), cv::FILLED)\<close>: the pixels
  of the filled contour \<open>contours[idx]\<close> take the colour, the others keep their value.
  The program only passes an index inside \<open>contours\<close>.
\<close>

definition drawContours :: "env \<Rightarrow> Mat \<Rightarrow> contour list \<Rightarrow> nat \<Rightarrow> pixel \<Rightarrow> Mat" where
  "drawContours env img contours idx color =
     map (\<lambda>y. map (\<lambda>x. if filled env (contours ! idx) (int x, int y) then color
                        else img ! y ! x)
                  [0 ..< length (img ! y)])
         [0 ..< length img]"

section \<open>The manifest records and the mask synthesis of \<^verbatim>\<open>process\<close>\<close>

text \<open>
  \<^verbatim>\<open>main\<close> collects the columns of the manifest rows it keeps in parallel vectors
  (\<^verbatim>\<open>uid\<close>, \<^verbatim>\<open>fnames\<close>, \<^verbatim>\<open>sid\<close>, \<^verbatim>\<open>sample_names\<close>, \<^verbatim>\<open>det_success\<close>,
  \<^verbatim>\<open>scale_success\<close>, \<^verbatim>\<open>scale_dark\<close>, \<^verbatim>\<open>scale_light\<close>, \<^verbatim>\<open>rois\<close>), one entry per row in
  each; the model keeps one record per row.
\<close>

record roi_record =
  uid :: int
  fname :: string
  sid :: int
  sample_name :: string
  det_success :: bool
  scale_success :: bool
  scale_dark :: int
  scale_light :: int
  roi_mat :: Mat

text \<open>
  The vectors \<^verbatim>\<open>back_strict\<close>, \<^verbatim>\<open>back_loose\<close>, \<^verbatim>\<open>foreground\<close>, \<^verbatim>\<open>graymask\<close> and
  \<^verbatim>\<open>has_foreground\<close> of \<^verbatim>\<open>process\<close>, one record per ROI. The colour overlay
  (\<^verbatim>\<open>overlap\<close>) and the two JPEG files written per ROI take no part in the ledgers and
  are left out.
\<close>

record mask_set =
  back_strict :: Mat
  back_loose :: Mat
  foreground :: Mat
  graymask :: Mat
  has_foreground :: bool

text \<open>
  Modelled from the spec: \<^verbatim>\<open>reverse\<close> is declared in blobnn.h, which is not among the
  sources; the spec gives \<open>reversed = 255 - original\<close>.
\<close>

definition reverse :: "Mat \<Rightarrow> Mat" where
  "reverse m = map (map (\<lambda>p. 255 - p)) m"

text \<open>
  Modelled from the spec: \<^verbatim>\<open>any\<close> is declared in blobnn.h, which is not among the
  sources; the spec gives the foreground size as the count of nonzero mask pixels.
\<close>

definition any :: "Mat \<Rightarrow> int" where
  "any m = int (length (filter (\<lambda>p. p \<noteq> 0) (concat m)))"

definition padding :: nat where
  "padding = 5"

text \<open>
  One turn of the loop over the contours (lines 538-577), for the contour with index
  \<open>idc\<close>; the state is \<open>(fg, bgloose, detected)\<close>.
\<close>

definition contour_step ::
  "env \<Rightarrow> Mat \<Rightarrow> contour list \<Rightarrow> nat \<Rightarrow> Mat \<times> Mat \<times> bool \<Rightarrow> Mat \<times> Mat \<times> bool" where
  "contour_step env roi contours idc st =
     (case st of (fg, bgloose, detected) \<Rightarrow>
        (let cont = contours ! idc; area = contourArea cont in
         if 1000 < area \<and> area < 50000 then
           (let fg1 = drawContours env fg contours idc 255;
                bounds = boundingRect cont;
                bgcont1 = [(rect_x bounds + rect_width bounds, 0),
                           (int (mat_cols roi), 0),
                           (int (mat_cols roi), int (mat_rows roi)),
                           (rect_x bounds + rect_width bounds, int (mat_rows roi))];
                bgloose1 = drawContours env bgloose [bgcont1] 0 0;
                bgloose2 = drawContours env bgloose1 contours idc 0
            in (fg1, bgloose2, True))
         else (fg, bgloose, detected)))"

text \<open>The body of the first loop of \<^verbatim>\<open>process\<close> for an ROI whose detection succeeded.\<close>

definition synthesize :: "env \<Rightarrow> globals \<Rightarrow> Mat \<Rightarrow> mask_set" where
  "synthesize env g roi =
     (let outcv = forward env (reverse roi);
          binary = binarize g outcv;
          contours = findContours env binary;
          fg0 = mat_const (mat_rows roi) (mat_cols roi) 0;
          bgloose0 = mat_const (mat_rows roi) (mat_cols roi) 0;
          bginit1 = [(int padding, int padding),
                     (int (mat_cols roi) - int padding, int padding),
                     (int (mat_cols roi) - int padding, int (mat_rows roi) - int padding),
                     (int padding, int (mat_rows roi) - int padding)];
          bgloose1 = drawContours env bgloose0 [bginit1] 0 255;
          st = fold (contour_step env roi contours) [0 ..< length contours]
                 (fg0, bgloose1, False);
          bgstrict = morphologyEx (fst (snd st)) MORPH_ERODE padding
      in \<lparr> back_strict = bgstrict, back_loose = fst (snd st), foreground = fst st,
           graymask = outcv, has_foreground = snd (snd st) \<rparr>)"

text \<open>The branch for a failed detection (lines 451-462): 3 x 3 black placeholders.\<close>

definition placeholder :: mask_set where
  "placeholder =
     \<lparr> back_strict = mat_const 3 3 0, back_loose = mat_const 3 3 0,
       foreground = mat_const 3 3 0, graymask = mat_const 3 3 0, has_foreground = False \<rparr>"

definition masks_of :: "env \<Rightarrow> globals \<Rightarrow> roi_record \<Rightarrow> mask_set" where
  "masks_of env g r =
     (if \<not> det_success r then placeholder else synthesize env g (roi_mat r))"

section \<open>The statistics and the two rows of an ROI\<close>

text \<open>
  \<^verbatim>\<open>fm\<close> and \<^verbatim>\<open>fsz\<close> (lines 642-658), \<^verbatim>\<open>backsmean[0]\<close> and \<^verbatim>\<open>backlmean[0]\<close>
  (lines 660-661): the values the turn of the loop works with once its calls of
  \<^verbatim>\<open>cv::mean\<close> have returned.
\<close>

definition fore_stats :: "roi_record \<Rightarrow> mask_set \<Rightarrow> real \<times> int" where
  "fore_stats r ms =
     (if has_foreground ms then
        (let morph = morphologyEx (foreground ms) MORPH_DILATE 2
         in (mean_value (roi_mat r) morph, any morph))
      else (- 1, - 1))"

definition backsmean :: "roi_record \<Rightarrow> mask_set \<Rightarrow> real" where
  "backsmean r ms = mean_value (roi_mat r) (back_strict ms)"

definition backlmean :: "roi_record \<Rightarrow> mask_set \<Rightarrow> real" where
  "backlmean r ms = mean_value (roi_mat r) (back_loose ms)"

text \<open>The condition of the \<^verbatim>\<open>if\<close> at lines 673-677.\<close>

definition stats_gate :: "roi_record \<Rightarrow> mask_set \<Rightarrow> bool" where
  "stats_gate r ms =
     (det_success r \<and> scale_success r \<and> has_foreground ms \<and>
      0 < snd (fore_stats r ms) \<and> 0 < fst (fore_stats r ms) \<and>
      0 < backsmean r ms - fst (fore_stats r ms) \<and>
      0 < scale_light r \<and> 0 < scale_dark r \<and>
      scale_dark r < scale_light r \<and>
      0 < backlmean r ms \<and> 0 < backsmean r ms)"

text \<open>The eight arguments of \<^verbatim>\<open>log\<close> at lines 682-689, in their order.\<close>

definition log_args :: "roi_record \<Rightarrow> mask_set \<Rightarrow> real list" where
  "log_args r ms =
     [(backsmean r ms - fst (fore_stats r ms)) * real_of_int (snd (fore_stats r ms)),
      real_of_int (scale_light r - scale_dark r),
      real_of_int (scale_light r),
      real_of_int (scale_dark r),
      backlmean r ms,
      backsmean r ms,
      fst (fore_stats r ms),
      real_of_int (snd (fore_stats r ms))]"

section \<open>Strings: \<^verbatim>\<open>strchr\<close>, \<^verbatim>\<open>atoi\<close> and \<^verbatim>\<open>printf\<close>'s \<^verbatim>\<open>%d\<close>\<close>

text \<open>
  A C string is the list of its characters before the terminating NUL. A line read from
  a file can hold NUL bytes: \<^verbatim>\<open>strlen\<close>, \<^verbatim>\<open>strncpy\<close>, \<^verbatim>\<open>strchr\<close> and \<^verbatim>\<open>%s\<close> see of
  a buffer the characters before its first NUL.
\<close>

definition NUL :: char where
  "NUL = CHR 0x00"

definition c_str :: "string \<Rightarrow> string" where
  "c_str buf = takeWhile (\<lambda>c. c \<noteq> NUL) buf"

definition tab :: char where
  "tab = CHR 0x09"

definition newline :: char where
  "newline = CHR 0x0A"

text \<open>\<^verbatim>\<open>strchr(s, ch)\<close>: the offset of the first \<open>ch\<close> in \<open>s\<close>, or \<open>None\<close> for \<^verbatim>\<open>NULL\<close>.\<close>

fun strchr :: "string \<Rightarrow> char \<Rightarrow> nat option" where
  "strchr [] ch = None"
| "strchr (c # cs) ch = (if c = ch then Some 0 else map_option Suc (strchr cs ch))"

definition isspace :: "char \<Rightarrow> bool" where
  "isspace c = (c \<in> set [CHR 0x20, CHR 0x09, CHR 0x0A, CHR 0x0B, CHR 0x0C, CHR 0x0D])"

definition isdigit :: "char \<Rightarrow> bool" where
  "isdigit c = (48 \<le> (of_char c :: nat) \<and> (of_char c :: nat) \<le> 57)"

fun atoi_digits :: "int \<Rightarrow> string \<Rightarrow> int" where
  "atoi_digits acc [] = acc"
| "atoi_digits acc (c # cs) =
     (if isdigit c then atoi_digits (acc * 10 + (int (of_char c) - 48)) cs else acc)"

definition clamp_int32 :: "int \<Rightarrow> int" where
  "clamp_int32 v = max INT32_MIN (min INT32_MAX v)"

text \<open>
  \<^verbatim>\<open>atoi\<close>: leading white space, an optional sign, then decimal digits up to the first
  other character; 0 when there is no digit. For a value outside the range of
  \<^verbatim>\<open>int\<close> the C standard fixes no result; the model saturates, as \<^verbatim>\<open>strtol\<close> does.
\<close>

definition atoi :: "string \<Rightarrow> int" where
  "atoi s =
     (case dropWhile isspace s of
        [] \<Rightarrow> 0
      | c # cs \<Rightarrow>
          if c = CHR ''-'' then clamp_int32 (- atoi_digits 0 cs)
          else if c = CHR ''+'' then clamp_int32 (atoi_digits 0 cs)
          else clamp_int32 (atoi_digits 0 (c # cs)))"

definition digit_char :: "nat \<Rightarrow> char" where
  "digit_char n = ''0123456789'' ! n"

fun show_nat :: "nat \<Rightarrow> string" where
  "show_nat n =
     (if n < 10 then [digit_char n] else show_nat (n div 10) @ [digit_char (n mod 10)])"

declare show_nat.simps [simp del]

text \<open>\<^verbatim>\<open>printf("%d", i)\<close>.\<close>

definition show_int :: "int \<Rightarrow> string" where
  "show_int i = (if i < 0 then CHR ''-'' # show_nat (nat (- i)) else show_nat (nat i))"

section \<open>Reading a file line by line\<close>

text \<open>
  The three text files are read with \<^verbatim>\<open>getline(&line, &len, f)\<close>; each caller copies
  \<^verbatim>\<open>strncpy(.., line, len)\<close> and works on the copy, which holds the characters of the
  line before its first NUL byte. A stream is the list of the characters not read yet.

  Where \<^verbatim>\<open>unix\<close> is not defined, \<^verbatim>\<open>getline\<close> is the program's own (lines 70-82):
  \<^verbatim>\<open>fgets(line, max_line_len - 1, stream)\<close> reads at most \<open>max_line_len - 2\<close>
  characters and stops after a newline; at the end of the file it returns \<^verbatim>\<open>NULL\<close>
  and \<^verbatim>\<open>getline\<close> returns -1 (\<open>None\<close>). Otherwise \<^verbatim>\<open>*n\<close>, the \<^verbatim>\<open>len\<close> of the
  callers, is \<^verbatim>\<open>strlen(line)\<close>.

  Where \<^verbatim>\<open>unix\<close> is defined, \<^verbatim>\<open>getline\<close> is the C library's: it reads up to and
  including the next newline, whatever the length, returns -1 only at the end of the
  file, and leaves in \<^verbatim>\<open>*n\<close> the size of the buffer that holds the line, not the length
  of the line. In glibc the buffer has 120 bytes at first and always room for the line
  and its terminator; how much more it has depends on the lines read before. The callers
  only compare \<^verbatim>\<open>len\<close> with 1 and copy within it, so the model takes the smallest such
  size.
\<close>

definition max_line_len :: nat where
  "max_line_len = 65535"

fun fgets :: "nat \<Rightarrow> string \<Rightarrow> string \<times> string" where
  "fgets n [] = ([], [])"
| "fgets n (c # cs) =
     (if n \<le> 1 then ([], c # cs)
      else if c = newline then ([c], cs)
      else (case fgets (n - 1) cs of (l, rest) \<Rightarrow> (c # l, rest)))"

fun read_to_newline :: "string \<Rightarrow> string \<times> string" where
  "read_to_newline [] = ([], [])"
| "read_to_newline (c # cs) =
     (if c = newline then ([c], cs)
      else (case read_to_newline cs of (l, rest) \<Rightarrow> (c # l, rest)))"

definition glibc_capacity :: "string \<Rightarrow> nat" where
  "glibc_capacity raw = max 120 (Suc (length raw))"

definition getline :: "bool \<Rightarrow> string \<Rightarrow> ((string \<times> nat) \<times> string) option" where
  "getline ux stream =
     (if ux then
        (case read_to_newline stream of
           (raw, rest) \<Rightarrow>
             if raw = [] then None else Some ((c_str raw, glibc_capacity raw), rest))
      else
        (case fgets (max_line_len - 1) stream of
           (raw, rest) \<Rightarrow>
             if raw = [] then None else Some ((c_str raw, length (c_str raw)), rest)))"

text \<open>
  The successive results \<open>(line, len)\<close> of \<^verbatim>\<open>getline\<close> until it returns -1: what the
  three \<^verbatim>\<open>while ((read = getline(&line, &len, f)) != -1)\<close> loops iterate over.
\<close>

function getlines :: "bool \<Rightarrow> string \<Rightarrow> (string \<times> nat) list" where
  "getlines ux stream =
     (case getline ux stream of
        None \<Rightarrow> []
      | Some (ll, rest) \<Rightarrow> ll # getlines ux rest)"
  by pat_completeness auto
termination
proof (relation "measure (\<lambda>(ux, stream). length stream)")
  show "wf (measure (\<lambda>(ux, stream). length stream))" by simp
next
  fix ux and stream :: string and x2 ll rest
  assume a: "getline ux stream = Some x2" "(ll, rest) = x2"
  have len: "length (fst (fgets n s)) + length (snd (fgets n s)) = length s" for n s
    by (induction n s rule: fgets.induct) (auto split: prod.splits)
  have len': "length (fst (read_to_newline s)) + length (snd (read_to_newline s)) = length s"
    for s
    by (induction s) (auto split: prod.splits)
  have "length rest < length stream"
  proof (cases ux)
    case True
    with a have "fst (read_to_newline stream) \<noteq> []"
      and "rest = snd (read_to_newline stream)"
      by (auto simp: getline_def split: prod.splits if_splits)
    with len' [of stream] show ?thesis
      by (cases "fst (read_to_newline stream)") auto
  next
    case False
    with a have "fst (fgets (max_line_len - 1) stream) \<noteq> []"
      and "rest = snd (fgets (max_line_len - 1) stream)"
      by (auto simp: getline_def split: prod.splits if_splits)
    with len [of "max_line_len - 1" stream] show ?thesis
      by (cases "fst (fgets (max_line_len - 1) stream)") auto
  qed
  then show "((ux, rest), (ux, stream)) \<in> measure (\<lambda>(ux, stream). length stream)" by simp
qed

declare getlines.simps [simp del]

text \<open>A loop whose body can fail: the first error ends the run.\<close>

fun fold_err :: "('a \<Rightarrow> 's \<Rightarrow> error + 's) \<Rightarrow> 'a list \<Rightarrow> 's \<Rightarrow> error + 's" where
  "fold_err f [] s = Inr s"
| "fold_err f (x # xs) s = (case f x s of Inl e \<Rightarrow> Inl e | Inr s' \<Rightarrow> fold_err f xs s')"

section \<open>\<^verbatim>\<open>main\<close>: loading the prior ledgers and scanning the manifest\<close>

text \<open>
  The body of the loops at lines 260-270 and 280-290: keep the copy of the line, and the
  number before its first tab as its uid. A line without a tab makes \<^verbatim>\<open>strchr\<close>
  return \<^verbatim>\<open>NULL\<close>, which the next statement writes through.
\<close>

definition load_raw_line :: "string \<times> nat \<Rightarrow> globals \<Rightarrow> error + globals" where
  "load_raw_line ll g =
     (case strchr (fst ll) tab of
        None \<Rightarrow> Inl NullDeref
      | Some k \<Rightarrow>
          Inr (g\<lparr> rawlines := rawlines g @ [fst ll],
                  rawuids := rawuids g @ [atoi (take k (fst ll))] \<rparr>))"

definition load_stat_line :: "string \<times> nat \<Rightarrow> globals \<Rightarrow> error + globals" where
  "load_stat_line ll g =
     (case strchr (fst ll) tab of
        None \<Rightarrow> Inl NullDeref
      | Some k \<Rightarrow>
          Inr (g\<lparr> statlines := statlines g @ [fst ll],
                  statuids := statuids g @ [atoi (take k (fst ll))] \<rparr>))"

text \<open>A ledger file that does not exist yet (\<^verbatim>\<open>fopen\<close> returns \<^verbatim>\<open>NULL\<close>) is \<open>None\<close>.\<close>

definition load_raw :: "bool \<Rightarrow> string option \<Rightarrow> globals \<Rightarrow> error + globals" where
  "load_raw ux f g =
     (case f of
        None \<Rightarrow> Inr g
      | Some content \<Rightarrow> fold_err load_raw_line (getlines ux content) g)"

definition load_stat :: "bool \<Rightarrow> string option \<Rightarrow> globals \<Rightarrow> error + globals" where
  "load_stat ux f g =
     (case f of
        None \<Rightarrow> Inr g
      | Some content \<Rightarrow> fold_err load_stat_line (getlines ux content) g)"

text \<open>
  \<^verbatim>\<open>col = strchr(sline, '\t'); *col = '\0'; ...; sline = col + 1\<close>: the column before
  the first tab and the rest after it.
\<close>

definition next_col :: "string \<Rightarrow> (string \<times> string) option" where
  "next_col sline =
     (case strchr sline tab of None \<Rightarrow> None | Some k \<Rightarrow> Some (take k sline, drop (Suc k) sline))"

definition flag_x :: "string \<Rightarrow> bool" where
  "flag_x col = (case col of [] \<Rightarrow> False | c # _ \<Rightarrow> c = CHR ''x'')"

text \<open>
  Columns 2 to 8 of a manifest row whose uid is in range (lines 387-417); each of the
  seven columns ends at a tab of its own.
\<close>

definition parse_columns :: "env \<Rightarrow> int \<Rightarrow> string \<Rightarrow> roi_record option" where
  "parse_columns env uidx s1 =
     (case next_col s1 of None \<Rightarrow> None | Some (c2, s2) \<Rightarrow>
      case next_col s2 of None \<Rightarrow> None | Some (c3, s3) \<Rightarrow>
      case next_col s3 of None \<Rightarrow> None | Some (c4, s4) \<Rightarrow>
      case next_col s4 of None \<Rightarrow> None | Some (c5, s5) \<Rightarrow>
      case next_col s5 of None \<Rightarrow> None | Some (c6, s6) \<Rightarrow>
      case next_col s6 of None \<Rightarrow> None | Some (c7, s7) \<Rightarrow>
      case next_col s7 of None \<Rightarrow> None | Some (c8, s8) \<Rightarrow>
        Some \<lparr> uid = uidx, fname = c2, sid = atoi c3, sample_name = c4,
               det_success = flag_x c5, scale_success = flag_x c6,
               scale_dark = atoi c7, scale_light = atoi c8,
               roi_mat = imread env uidx \<rparr>)"

text \<open>The body of the loop over the manifest (lines 371-418).\<close>

definition scan_line ::
  "env \<Rightarrow> string \<times> nat \<Rightarrow> globals \<times> roi_record list \<Rightarrow> error + globals \<times> roi_record list" where
  "scan_line env ll st =
     (if snd ll \<le> 1 then Inr st
      else
        (case next_col (fst ll) of
           None \<Rightarrow> Inl NullDeref
         | Some (c1, s1) \<Rightarrow>
             (let uidx = atoi c1; g = fst st in
              if start_id g \<le> uidx \<and> uidx \<le> end_id g then
                (case parse_columns env uidx s1 of
                   None \<Rightarrow> Inl NullDeref
                 | Some r \<Rightarrow> Inr (g, snd st @ [r]))
              else Inr (if max_id g < uidx then g\<lparr>max_id := uidx\<rparr> else g, snd st))))"

definition scan_manifest :: "env \<Rightarrow> string \<Rightarrow> globals \<Rightarrow> error + globals \<times> roi_record list" where
  "scan_manifest env manifest g =
     fold_err (scan_line env) (getlines (unix env) manifest) (g, [])"

section \<open>\<^verbatim>\<open>process\<close>: writing the two ledgers\<close>

text \<open>
  The inner loops at lines 618-622 and 714-718: the prior lines whose uid is \<open>i\<close>, in
  the order they were loaded. The two vectors grow together while loading, so
  \<^verbatim>\<open>lines.at(j)\<close> exists for every index of \<^verbatim>\<open>uids\<close>.
\<close>

definition emit_matching :: "int list \<Rightarrow> string list \<Rightarrow> int \<Rightarrow> string list" where
  "emit_matching uids lines i =
     map (\<lambda>j. lines ! j) (filter (\<lambda>j. uids ! j = i) [0 ..< length uids])"

definition carry_step :: "int \<Rightarrow> globals \<Rightarrow> globals" where
  "carry_step i g =
     g\<lparr> rawfile := rawfile g @ emit_matching (rawuids g) (rawlines g) i,
        statfile := statfile g @ emit_matching (statuids g) (statlines g) i \<rparr>"

text \<open>\<^verbatim>\<open>for (int i = 1; i < start_id; i++)\<close>, entered with \<open>i = 1\<close>.\<close>

function carry_low :: "int \<Rightarrow> globals \<Rightarrow> globals" where
  "carry_low i g = (if i < start_id g then carry_low (i + 1) (carry_step i g) else g)"
  by pat_completeness auto
termination
  by (relation "measure (\<lambda>(i, g). nat (start_id g - i))") (auto simp: carry_step_def)

declare carry_low.simps [simp del]

text \<open>
  \<^verbatim>\<open>i++\<close> on an \<^verbatim>\<open>int\<close>. At \<^verbatim>\<open>INT32_MAX\<close> the increment overflows; the model takes
  the wrap-around of a two's complement machine. Whatever an overflowing increment
  leaves in \<^verbatim>\<open>i\<close>, it is an \<^verbatim>\<open>int\<close> and so at most \<^verbatim>\<open>INT32_MAX\<close>.
\<close>

definition next_int32 :: "int \<Rightarrow> int" where
  "next_int32 i = (if i = INT32_MAX then INT32_MIN else i + 1)"

text \<open>
  \<^verbatim>\<open>for (int i = end_id + 1; i <= max_id; i++)\<close>. With \<^verbatim>\<open>max_id = INT32_MAX\<close> the
  test holds for every \<^verbatim>\<open>int\<close> and the loop never ends: the function is partial, and
  \<open>None\<close> is a loop that does not return.
\<close>

partial_function (option) carry_high :: "int \<Rightarrow> globals \<Rightarrow> globals option" where
  "carry_high i g =
     (if i \<le> max_id g then carry_high (next_int32 i) (carry_step i g) else Some g)"

text \<open>The markers \<^verbatim>\<open>strpass1\<close>, \<^verbatim>\<open>strpass2\<close>, \<^verbatim>\<open>strpass3\<close>.\<close>

definition strpass :: "bool \<Rightarrow> string" where
  "strpass b = (if b then ''x'' else ''.'')"

text \<open>
  The row written to \<^verbatim>\<open>rawfile\<close> (lines 663-667), format
  \<^verbatim>\<open>"%d\t%s\t%d\t%s\t%s\t%s\t%s\t%.2f\t%d\t%.2f\t%.2f\t%d\t%d\n"\<close>. The sample name is
  copied through the 512-byte buffer \<^verbatim>\<open>name\<close>; names are shorter than that.
\<close>

definition raw_line :: "env \<Rightarrow> roi_record \<Rightarrow> mask_set \<Rightarrow> string" where
  "raw_line env r ms =
     show_int (uid r) @ [tab] @ fname r @ [tab] @ show_int (sid r) @ [tab] @
     sample_name r @ [tab] @ strpass (det_success r) @ [tab] @
     strpass (scale_success r) @ [tab] @ strpass (has_foreground ms) @ [tab] @
     fmt_float env 2 (fst (fore_stats r ms)) @ [tab] @
     show_int (snd (fore_stats r ms)) @ [tab] @
     fmt_float env 2 (backsmean r ms) @ [tab] @
     fmt_float env 2 (backlmean r ms) @ [tab] @
     show_int (scale_dark r) @ [tab] @ show_int (scale_light r) @ [newline]"

text \<open>
  The row written to \<^verbatim>\<open>statfile\<close> (lines 679-691), format
  \<^verbatim>\<open>"%d\t%s\t%d\t%.5f\t%.5f\t%.5f\t%.5f\t%.5f\t%.5f\t%.5f\t%.5f\t%s\n"\<close>.
\<close>

definition stat_line :: "env \<Rightarrow> roi_record \<Rightarrow> mask_set \<Rightarrow> string" where
  "stat_line env r ms =
     show_int (uid r) @ [tab] @ fname r @ [tab] @ show_int (sid r) @ [tab] @
     concat (map (\<lambda>x. fmt_float env 5 (log_fn env x) @ [tab]) (log_args r ms)) @
     sample_name r @ [newline]"

text \<open>
  What one turn of the loop at lines 625-711 writes to the ledgers: the raw row always,
  the stats row under the gate.
\<close>

definition regen_step :: "env \<Rightarrow> roi_record \<times> mask_set \<Rightarrow> globals \<Rightarrow> globals" where
  "regen_step env rm g =
     (let g1 = g\<lparr> rawfile := rawfile g @ [raw_line env (fst rm) (snd rm)] \<rparr>
      in if stats_gate (fst rm) (snd rm)
         then g1\<lparr> statfile := statfile g1 @ [stat_line env (fst rm) (snd rm)] \<rparr>
         else g1)"

text \<open>
  One turn of the loop at lines 625-711: the calls of \<^verbatim>\<open>cv::mean\<close> at lines 655, 660
  and 661 come before the first \<^verbatim>\<open>fprintf\<close>, and a call that throws ends the run
  there; when the three have returned, the rows are written.
\<close>

definition regen_turn :: "env \<Rightarrow> roi_record \<times> mask_set \<Rightarrow> globals \<Rightarrow> error + globals" where
  "regen_turn env rm g =
     (case (if has_foreground (snd rm)
            then cv_mean (roi_mat (fst rm)) (morphologyEx (foreground (snd rm)) MORPH_DILATE 2)
            else Inr (- 1)) of
        Inl e \<Rightarrow> Inl e
      | Inr fm \<Rightarrow>
          (case cv_mean (roi_mat (fst rm)) (back_strict (snd rm)) of
             Inl e \<Rightarrow> Inl e
           | Inr bs \<Rightarrow>
               (case cv_mean (roi_mat (fst rm)) (back_loose (snd rm)) of
                  Inl e \<Rightarrow> Inl e
                | Inr bl \<Rightarrow> Inr (regen_step env rm g))))"

text \<open>
  \<^verbatim>\<open>process\<close> up to the end of its second loop: the masks of every ROI, the
  carry-forward of the uids below \<^verbatim>\<open>start_id\<close>, then the rows of this run.
\<close>

definition regen_phase :: "env \<Rightarrow> roi_record list \<Rightarrow> globals \<Rightarrow> error + globals" where
  "regen_phase env recs g =
     fold_err (regen_turn env) (zip recs (map (masks_of env g) recs)) (carry_low 1 g)"

text \<open>
  \<^verbatim>\<open>process\<close> as far as the ledgers go. A run has three outcomes: \<open>None\<close> when it
  never ends, \<open>Some (Inl e)\<close> when it ends with the error \<open>e\<close>, \<open>Some (Inr g)\<close> when
  it completes with the globals \<open>g\<close>.
\<close>

definition process :: "env \<Rightarrow> roi_record list \<Rightarrow> globals \<Rightarrow> (error + globals) option" where
  "process env recs g =
     (case regen_phase env recs g of
        Inl e \<Rightarrow> Some (Inl e)
      | Inr g2 \<Rightarrow>
          (case high_loop_start g2 of
             Inl e \<Rightarrow> Some (Inl e)
           | Inr i0 \<Rightarrow> map_option Inr (carry_high i0 g2)))"

text \<open>
  The three files of the data directory the ledgers depend on. The run is modelled for
  an existing data directory and model file.
\<close>

record files =
  raw_tsv :: "string option"
  stats_tsv :: "string option"
  rois_tsv :: "string option"

text \<open>The globals after the command line is parsed.\<close>

definition configure :: "int \<Rightarrow> int \<Rightarrow> int \<Rightarrow> globals" where
  "configure m n c = initial_globals\<lparr> start_id := m, end_id := n, pred_cutoff := c \<rparr>"

text \<open>\<^verbatim>\<open>main\<close> up to the return of \<^verbatim>\<open>process\<close>: the final globals.\<close>

definition main_globals :: "env \<Rightarrow> globals \<Rightarrow> files \<Rightarrow> (error + globals) option" where
  "main_globals env g0 fs =
     (case load_raw (unix env) (raw_tsv fs) g0 of Inl e \<Rightarrow> Some (Inl e) | Inr g1 \<Rightarrow>
      case load_stat (unix env) (stats_tsv fs) g1 of Inl e \<Rightarrow> Some (Inl e) | Inr g2 \<Rightarrow>
      case rois_tsv fs of None \<Rightarrow> Some (Inl NoManifest) | Some manifest \<Rightarrow>
      case scan_manifest env manifest g2 of Inl e \<Rightarrow> Some (Inl e) | Inr (g3, recs) \<Rightarrow>
        process env recs g3)"

text \<open>
  The files after a run that completes: each ledger holds what was written to it, in
  order.
\<close>

definition main :: "env \<Rightarrow> globals \<Rightarrow> files \<Rightarrow> (error + files) option" where
  "main env g0 fs =
     (case main_globals env g0 fs of
        None \<Rightarrow> None
      | Some (Inl e) \<Rightarrow> Some (Inl e)
      | Some (Inr g) \<Rightarrow> Some (Inr (fs\<lparr> raw_tsv := Some (concat (rawfile g)),
                                        stats_tsv := Some (concat (statfile g)) \<rparr>)))"

section \<open>Notions used in the statements\<close>

text \<open>The area test of line 544.\<close>

definition area_gate :: "contour \<Rightarrow> bool" where
  "area_gate cont = (1000 < contourArea cont \<and> contourArea cont < 50000)"

text \<open>The contours \<^verbatim>\<open>process\<close> extracts for an ROI: those of its binary mask.\<close>

definition contours_of :: "env \<Rightarrow> globals \<Rightarrow> Mat \<Rightarrow> contour list" where
  "contours_of env g roi = findContours env (binarize g (forward env (reverse roi)))"

text \<open>\<open>(x, y)\<close> is a position of the matrix and the pixel there is not 0.\<close>

definition nonzero_at :: "Mat \<Rightarrow> nat \<Rightarrow> nat \<Rightarrow> bool" where
  "nonzero_at m x y = (y < length m \<and> x < length (m ! y) \<and> m ! y ! x \<noteq> 0)"

text \<open>
  The indices of the prior lines that a carry-forward over the ids \<open>lo\<close> to \<open>hi\<close>
  re-emits, in the order it emits them: id by id, and within an id in the order of
  loading; and the lines at these indices.
\<close>

definition carried_indices :: "int list \<Rightarrow> int \<Rightarrow> int \<Rightarrow> nat list" where
  "carried_indices uids lo hi =
     concat (map (\<lambda>i. filter (\<lambda>j. uids ! j = i) [0 ..< length uids]) [lo .. hi])"

definition carried :: "int list \<Rightarrow> string list \<Rightarrow> int \<Rightarrow> int \<Rightarrow> string list" where
  "carried uids lines lo hi = map (\<lambda>j. lines ! j) (carried_indices uids lo hi)"

text \<open>
  The uid a manifest line is scanned under (none for a line with \<^verbatim>\<open>len <= 1\<close>), and
  the uids of the lines the scan skips because they are outside \<^verbatim>\<open>[start_id, end_id]\<close>.
\<close>

definition first_uid :: "string \<times> nat \<Rightarrow> int option" where
  "first_uid ll =
     (if snd ll \<le> 1 then None else map_option (\<lambda>cs. atoi (fst cs)) (next_col (fst ll)))"

definition skipped_uids :: "bool \<Rightarrow> globals \<Rightarrow> string \<Rightarrow> int list" where
  "skipped_uids ux g manifest =
     filter (\<lambda>u. \<not> (start_id g \<le> u \<and> u \<le> end_id g))
       (List.map_filter first_uid (getlines ux manifest))"

text \<open>The rows \<^verbatim>\<open>process\<close> computes in this run, for the two ledgers.\<close>

definition fresh_raw :: "env \<Rightarrow> globals \<Rightarrow> roi_record list \<Rightarrow> string list" where
  "fresh_raw env g recs = map (\<lambda>r. raw_line env r (masks_of env g r)) recs"

definition fresh_stat :: "env \<Rightarrow> globals \<Rightarrow> roi_record list \<Rightarrow> string list" where
  "fresh_stat env g recs =
     map (\<lambda>r. stat_line env r (masks_of env g r))
       (filter (\<lambda>r. stats_gate r (masks_of env g r)) recs)"

text \<open>The uid a ledger line is loaded under: the number before its first tab.\<close>

definition line_uid :: "string \<Rightarrow> int" where
  "line_uid l = atoi (takeWhile (\<lambda>c. c \<noteq> tab) l)"

text \<open>The content of a ledger for a uid: its lines with that uid, in order.\<close>

definition rows_of :: "int \<Rightarrow> string list \<Rightarrow> string list" where
  "rows_of u ls = filter (\<lambda>l. line_uid l = u) ls"

text \<open>
  The content of a ledger file as the loading loop reads it, line by line (none for a
  missing file): what the program takes the file to hold.
\<close>

definition prior_lines :: "bool \<Rightarrow> string option \<Rightarrow> string list" where
  "prior_lines ux f =
     (case f of None \<Rightarrow> [] | Some content \<Rightarrow> map fst (getlines ux content))"



text \<open>A call of \<^verbatim>\<open>cv::mean\<close> in the turn of the second loop for an ROI throws.\<close>

definition turn_asserts :: "roi_record \<Rightarrow> mask_set \<Rightarrow> bool" where
  "turn_asserts r ms =
     ((has_foreground ms \<and>
       mean_asserts (roi_mat r) (morphologyEx (foreground ms) MORPH_DILATE 2)) \<or>
      mean_asserts (roi_mat r) (back_strict ms) \<or>
      mean_asserts (roi_mat r) (back_loose ms))"

text \<open>
  The last loop of \<^verbatim>\<open>process\<close>: \<^verbatim>\<open>end_id + 1\<close> overflows; the loop is entered and
  never left.
\<close>

definition end_overflow :: "int \<Rightarrow> bool" where
  "end_overflow n = (n + 1 < INT32_MIN \<or> INT32_MAX < n + 1)"

definition never_ends :: "int \<Rightarrow> int \<Rightarrow> bool" where
  "never_ends n M = (n + 1 \<le> M \<and> INT32_MAX \<le> M)"

text \<open>
  The rows a completed run writes to a ledger with prior lines \<open>L\<close>: the carry-forward
  below \<open>m\<close>, the rows of this run, the carry-forward from \<open>n + 1\<close> to \<open>M\<close>.
\<close>

definition merged_raw ::
  "env \<Rightarrow> int \<Rightarrow> int \<Rightarrow> int \<Rightarrow> string list \<Rightarrow> roi_record list \<Rightarrow> string list" where
  "merged_raw env m n M L recs =
     carried (map line_uid L) L 1 (m - 1) @ fresh_raw env initial_globals recs @
     carried (map line_uid L) L (n + 1) M"

definition merged_stat ::
  "env \<Rightarrow> int \<Rightarrow> int \<Rightarrow> int \<Rightarrow> string list \<Rightarrow> roi_record list \<Rightarrow> string list" where
  "merged_stat env m n M L recs =
     carried (map line_uid L) L 1 (m - 1) @ fresh_stat env initial_globals recs @
     carried (map line_uid L) L (n + 1) M"

section \<open>Concrete inputs\<close>

text \<open>An environment, records and mask sets to run the model on.\<close>

definition test_env :: env where
  "test_env =
     \<lparr> forward = (\<lambda>m. m), findContours = (\<lambda>m. []), filled = (\<lambda>c p. True),
       imread = (\<lambda>u. []), fmt_float = (\<lambda>n x. ''0''), log_fn = (\<lambda>x. x), unix = False \<rparr>"

text \<open>
  The same environment compiled where \<^verbatim>\<open>unix\<close> is defined, and one in which every
  \<^verbatim>\<open>sources/<uid>.jpg\<close> exists and is an image of one row and two columns.
\<close>

definition unix_env :: env where
  "unix_env = test_env\<lparr> unix := True \<rparr>"

definition image_env :: env where
  "image_env = test_env\<lparr> imread := (\<lambda>u. [[50, 150]]) \<rparr>"

definition test_record :: roi_record where
  "test_record =
     \<lparr> uid = 5, fname = ''a.jpg'', sid = 1, sample_name = ''s'', det_success = True,
       scale_success = True, scale_dark = 10, scale_light = 200, roi_mat = [[50, 150]] \<rparr>"

definition test_masks :: mask_set where
  "test_masks =
     \<lparr> back_strict = [[0, 255]], back_loose = [[0, 255]], foreground = [[255, 0]],
       graymask = [[200, 0]], has_foreground = True \<rparr>"

definition failed_record :: roi_record where
  "failed_record =
     \<lparr> uid = 7, fname = ''b.jpg'', sid = 2, sample_name = ''t'', det_success = False,
       scale_success = True, scale_dark = 10, scale_light = 200, roi_mat = [[50, 150]] \<rparr>"

text \<open>
  An environment that finds two contours, a 40 x 40 square and a unit square, and fills
  the bounding box of a contour.
\<close>

definition box_filled :: "contour \<Rightarrow> point \<Rightarrow> bool" where
  "box_filled c p =
     (let b = boundingRect c
      in rect_x b \<le> fst p \<and> fst p < rect_x b + rect_width b \<and>
         rect_y b \<le> snd p \<and> snd p < rect_y b + rect_height b)"

definition contour_env :: env where
  "contour_env =
     test_env\<lparr> findContours := (\<lambda>m. [[(0, 0), (40, 0), (40, 40), (0, 40)],
                                     [(0, 0), (1, 0), (1, 1), (0, 1)]]),
               filled := box_filled \<rparr>"

definition small_roi :: Mat where
  "small_roi = [[10, 20], [30, 40]]"

text \<open>
  Globals holding three prior raw lines, and a manifest with one row out of range;
  globals for the range [0, 0] holding one prior raw line for uid 1, to go with an empty
  manifest; and a manifest whose only row has the largest uid an \<^verbatim>\<open>int\<close> holds.
\<close>

definition prior_globals :: globals where
  "prior_globals =
     (configure 1 1 180)
       \<lparr> rawlines := [''2'' @ [tab] @ ''a'' @ [newline], ''3'' @ [tab] @ ''b'' @ [newline],
                      ''9'' @ [tab] @ ''c'' @ [newline]],
         rawuids := [2, 3, 9] \<rparr>"

definition skipped_manifest :: string where
  "skipped_manifest = ''3'' @ [tab, newline]"

definition globals_e :: globals where
  "globals_e =
     (configure 0 0 180)
       \<lparr> rawlines := [''1'' @ [tab] @ ''a'' @ [newline]], rawuids := [1] \<rparr>"

definition manifest_max :: string where
  "manifest_max = ''2147483647'' @ [tab, newline]"


text \<open>
  A manifest row for uid 2 with a failed detection, the record scanned from it and the
  raw row computed for it under \<open>test_env\<close>.
\<close>

definition manifest_row_2 :: string where
  "manifest_row_2 =
     ''2'' @ [tab] @ ''f.jpg'' @ [tab] @ ''3'' @ [tab] @ ''nm'' @ [tab] @ ''.'' @ [tab] @ ''x'' @
     [tab] @ ''10'' @ [tab] @ ''200'' @ [tab, newline]"

definition fresh_row_2 :: string where
  "fresh_row_2 =
     ''2'' @ [tab] @ ''f.jpg'' @ [tab] @ ''3'' @ [tab] @ ''nm'' @ [tab] @ ''.'' @ [tab] @ ''x'' @
     [tab] @ ''.'' @ [tab] @ ''0'' @ [tab] @ ''-1'' @ [tab] @ ''0'' @ [tab] @ ''0'' @ [tab] @
     ''10'' @ [tab] @ ''200'' @ [newline]"

definition record_2 :: roi_record where
  "record_2 =
     \<lparr> uid = 2, fname = ''f.jpg'', sid = 3, sample_name = ''nm'', det_success = False,
       scale_success = True, scale_dark = 10, scale_light = 200, roi_mat = [] \<rparr>"






















text \<open>
  A first run over the range [2, 2] with no ledgers yet, the manifest row for uid 2 with
  a failed detection, and the image \<^verbatim>\<open>sources/2.jpg\<close> in place (\<open>image_env\<close>).
\<close>

definition files_f :: files where
  "files_f = \<lparr> raw_tsv = None, stats_tsv = None, rois_tsv = Some manifest_row_2 \<rparr>"

section \<open>Properties\<close>

text \<open>
  C9: the default value of \<^verbatim>\<open>end_id\<close> is \<^verbatim>\<open>INT32_MAX - 10\<close>, and with it the
  lower bound \<^verbatim>\<open>end_id + 1\<close> of the carry-forward-high loop stays inside the 32-bit
  signed range: it is computed without overflow and equals \<^verbatim>\<open>INT32_MAX - 9\<close>.
\<close>

theorem default_end_id_no_overflow:
  "end_id initial_globals = INT32_MAX - 10 \<and>
   high_loop_start initial_globals = Inr (INT32_MAX - 9) \<and>
   INT32_MAX - 9 \<le> INT32_MAX"
  by (simp add: initial_globals_def high_loop_start_def add_int32_def INT32_MAX_def INT32_MIN_def)

text \<open>
  C1 (the code at the failing input): with the configured cutoff set to 100, a raster
  pixel of value 150 is above the configured cutoff, yet the binary mask the code
  computes has 0 there, because the threshold passed to \<^verbatim>\<open>cv::threshold\<close> is the
  literal 180; the binary mask is the same for every configured cutoff.
\<close>

theorem binarize_ignores_pred_cutoff:
  "binarize (initial_globals\<lparr>pred_cutoff := 100\<rparr>) [[150]] = [[0]] \<and>
   threshold_binary [[150]] 100 255 = [[255]] \<and>
   binarize (g\<lparr>pred_cutoff := c\<rparr>) outcv = binarize g outcv"
  by (simp add: binarize_def threshold_binary_def)

subsection \<open>Reading lines\<close>

lemma getlines_Nil: "getlines ux [] = []"
  by (simp add: getlines.simps [of ux "[]"] getline_def)

lemma getlines_Cons:
  "getlines False (c # cs) =
     (case fgets (max_line_len - 1) (c # cs) of
        (raw, rest) \<Rightarrow> (c_str raw, length (c_str raw)) # getlines False rest)"
  by (simp add: getlines.simps [of False "c # cs"] getline_def max_line_len_def
      split: prod.splits)

lemma getlines_Cons_unix:
  "getlines True (c # cs) =
     (case read_to_newline (c # cs) of
        (raw, rest) \<Rightarrow> (c_str raw, glibc_capacity raw) # getlines True rest)"
  by (simp add: getlines.simps [of True "c # cs"] getline_def split: prod.splits)

lemma getlines_len: "ll \<in> set (getlines False s) \<Longrightarrow> snd ll = length (fst ll)"
proof (induction False s rule: getlines.induct)
  case (1 stream)
  show ?case
  proof (cases "getline False stream")
    case None
    with 1 show ?thesis by (simp add: getlines.simps [of False stream])
  next
    case (Some a)
    obtain l rest where a: "a = (l, rest)" by (cases a)
    from Some a have l: "snd l = length (fst l)"
      by (auto simp: getline_def split: prod.splits if_splits)
    from 1(2) have "ll = l \<or> ll \<in> set (getlines False rest)"
      using Some a by (simp add: getlines.simps [of False stream])
    with 1(1) [OF Some a [symmetric]] l show ?thesis by auto
  qed
qed

lemma getlines_len_unix: "ll \<in> set (getlines True s) \<Longrightarrow> 120 \<le> snd ll"
proof (induction True s rule: getlines.induct)
  case (1 stream)
  show ?case
  proof (cases "getline True stream")
    case None
    with 1 show ?thesis by (simp add: getlines.simps [of True stream])
  next
    case (Some a)
    obtain l rest where a: "a = (l, rest)" by (cases a)
    from Some a have l: "120 \<le> snd l"
      by (auto simp: getline_def glibc_capacity_def split: prod.splits if_splits)
    from 1(2) have "ll = l \<or> ll \<in> set (getlines True rest)"
      using Some a by (simp add: getlines.simps [of True stream])
    with 1(1) [OF Some a [symmetric]] l show ?thesis by auto
  qed
qed

lemma fold_err_filter:
  "(\<And>x s. x \<in> set xs \<Longrightarrow> \<not> P x \<Longrightarrow> f x s = Inr s) \<Longrightarrow>
   fold_err f xs s = fold_err f (filter P xs) s"
  by (induction xs arbitrary: s) (auto split: sum.splits)

text \<open>
  With the program's own \<^verbatim>\<open>getline\<close>, \<^verbatim>\<open>len\<close> is the length of the line, and a
  manifest line of length at most 1 leaves the scan state as it is: no record is added
  and \<^verbatim>\<open>max_id\<close> keeps its value.
\<close>

lemma short_lines_skipped_own_getline:
  assumes "\<not> unix env" and "ll \<in> set (getlines (unix env) manifest)"
    and "length (fst ll) \<le> 1"
  shows "scan_line env ll (g, recs) = Inr (g, recs)"
  using assms getlines_len [of ll manifest] by (simp add: scan_line_def)

text \<open>
  With the C library's \<^verbatim>\<open>getline\<close>, \<^verbatim>\<open>len\<close> is never at most 1, so the test of line
  373 fails for every line, and a line without a tab goes on to line 381, where the
  \<^verbatim>\<open>NULL\<close> that \<^verbatim>\<open>strchr\<close> returned is written through.
\<close>

lemma no_line_skipped_unix:
  assumes "unix env" and "ll \<in> set (getlines (unix env) manifest)"
    and "tab \<notin> set (fst ll)"
  shows "scan_line env ll (g, recs) = Inl NullDeref"
proof -
  from assms getlines_len_unix [of ll manifest] have "\<not> snd ll \<le> 1" by simp
  moreover from assms(3) have "strchr (fst ll) tab = None"
    by (induction "fst ll" arbitrary: ll) auto
  ultimately show ?thesis by (simp add: scan_line_def next_col_def)
qed

text \<open>
  C10 (the code at the failing input): a manifest that is one empty line, in the build
  where \<^verbatim>\<open>unix\<close> is defined. \<^verbatim>\<open>getline\<close> returns the line with \<^verbatim>\<open>len = 120\<close>, the
  size of its buffer, so the test \<^verbatim>\<open>len <= 1\<close> fails, the line is not skipped, and
  the scan ends at the write through the null pointer. In the build with the program's
  own \<^verbatim>\<open>getline\<close> the same line has \<^verbatim>\<open>len = 1\<close> and is skipped.
\<close>

theorem blank_manifest_line_not_skipped_unix:
  "getlines (unix unix_env) [newline] = [([newline], 120)] \<and>
   scan_line unix_env ([newline], 120) (initial_globals, []) = Inl NullDeref \<and>
   scan_manifest unix_env [newline] initial_globals = Inl NullDeref \<and>
   getlines (unix test_env) [newline] = [([newline], 1)] \<and>
   scan_manifest test_env [newline] initial_globals = Inr (initial_globals, [])"
  by (simp add: unix_env_def test_env_def scan_manifest_def getlines_Cons_unix getlines_Cons
      getlines_Nil glibc_capacity_def c_str_def NUL_def newline_def tab_def max_line_len_def
      scan_line_def next_col_def)

subsection \<open>The statistics gate\<close>

text \<open>
  C2: the turn of the loop for an ROI appends the stats row exactly when detection
  succeeded, scale calibration succeeded, a foreground is present, \<^verbatim>\<open>fsz > 0\<close>,
  \<^verbatim>\<open>fm > 0\<close>, \<^verbatim>\<open>backsmean - fm > 0\<close>, both scale values are positive, light is above
  dark, and both background means are positive; it appends nothing else to the stats
  ledger; and whenever a stats row is written, each of the eight arguments of \<^verbatim>\<open>log\<close>
  is strictly positive. The turn is taken once its calls of \<^verbatim>\<open>cv::mean\<close> have
  returned, as they do for every ROI whose detection succeeded.
\<close>

theorem stats_row_iff_gate:
  "(statfile (regen_step env (r, ms) g) = statfile g @ [stat_line env r ms] \<longleftrightarrow>
      (det_success r \<and> scale_success r \<and> has_foreground ms \<and>
       0 < snd (fore_stats r ms) \<and> 0 < fst (fore_stats r ms) \<and>
       0 < backsmean r ms - fst (fore_stats r ms) \<and>
       0 < scale_light r \<and> 0 < scale_dark r \<and> scale_dark r < scale_light r \<and>
       0 < backlmean r ms \<and> 0 < backsmean r ms)) \<and>
   (statfile (regen_step env (r, ms) g) = statfile g @ [stat_line env r ms] \<or>
    statfile (regen_step env (r, ms) g) = statfile g) \<and>
   (statfile (regen_step env (r, ms) g) \<noteq> statfile g \<longrightarrow>
      (\<forall>x \<in> set (log_args r ms). 0 < x))"
proof (cases "stats_gate r ms")
  case True
  then have emitted: "statfile (regen_step env (r, ms) g) = statfile g @ [stat_line env r ms]"
    by (simp add: regen_step_def)
  from True have pos: "\<forall>x \<in> set (log_args r ms). 0 < x"
    by (simp add: stats_gate_def log_args_def)
  from True emitted pos show ?thesis
    by (simp add: stats_gate_def)
next
  case False
  then have same: "statfile (regen_step env (r, ms) g) = statfile g"
    by (simp add: regen_step_def)
  from False same show ?thesis
    by (simp add: stats_gate_def)
qed

lemma dilate_twice: "morphologyEx m MORPH_DILATE 2 = dilate3 (dilate3 m)"
  by (simp add: numeral_2_eq_2)

lemma test_fore_stats: "fore_stats test_record test_masks = (100, 2)"
  by (simp add: fore_stats_def test_record_def test_masks_def dilate_twice dilate3_def
      window3_def mean_value_def mat_empty_def mat_rows_def mat_cols_def any_def
      del: morphologyEx.simps)

lemma test_back: "backsmean test_record test_masks = 150" "backlmean test_record test_masks = 150"
  by (simp_all add: backsmean_def backlmean_def test_record_def test_masks_def mean_value_def
      mat_empty_def mat_rows_def mat_cols_def)

theorem stats_row_iff_gate_witness:
  "statfile (regen_step test_env (test_record, test_masks) initial_globals) \<noteq>
     statfile initial_globals \<and>
   log_args test_record test_masks = [100, 190, 200, 10, 150, 150, 100, 2]"
  using stats_row_iff_gate [of test_env test_record test_masks initial_globals]
  by (simp add: test_fore_stats test_back log_args_def)
     (simp add: test_record_def test_masks_def initial_globals_def)

subsection \<open>The calls of \<^verbatim>\<open>cv::mean\<close> and failed detections\<close>

lemma cv_mean_Inr: "cv_mean src msk = Inr v \<Longrightarrow> v = mean_value src msk \<and> \<not> mean_asserts src msk"
  by (auto simp: cv_mean_def split: if_splits)

lemma regen_turn_eq:
  "regen_turn env rm g =
     (if turn_asserts (fst rm) (snd rm) then Inl MeanSizeAssert else Inr (regen_step env rm g))"
  by (simp add: regen_turn_def turn_asserts_def cv_mean_def)

lemma mean_value_black: "mean_value src (mat_const 3 3 0) = 0"
proof -
  have "\<forall>m \<in> set (concat (mat_const 3 3 0)). m = 0"
    by (auto simp: mat_const_def)
  then have "filter (\<lambda>(p, m). m \<noteq> 0) (zip (concat src) (concat (mat_const 3 3 0))) = []"
    by (auto simp: filter_empty_conv dest!: set_zip_rightD)
  moreover have "\<not> mat_empty (mat_const 3 3 0)"
    by (simp add: mat_empty_def mat_rows_def mat_cols_def mat_const_def eval_nat_numeral)
  ultimately show ?thesis by (simp add: mean_value_def)
qed

lemma placeholder_asserts:
  "turn_asserts r placeholder \<longleftrightarrow>
     \<not> mat_empty (roi_mat r) \<and> (mat_rows (roi_mat r), mat_cols (roi_mat r)) \<noteq> (3, 3)"
  by (auto simp: turn_asserts_def placeholder_def mean_asserts_def mat_empty_def mat_rows_def
      mat_cols_def mat_const_def eval_nat_numeral)

text \<open>
  For a record whose detection flag is false the masks are the 3 x 3 black placeholders
  with no foreground, whatever the network would return (it is not called). When the
  image of the record is empty (\<^verbatim>\<open>cv::imread\<close> found no file) or has 3 rows and 3
  columns, the calls of \<^verbatim>\<open>cv::mean\<close> return: \<^verbatim>\<open>fm\<close> and \<^verbatim>\<open>fsz\<close> are -1, both
  background means are 0, and the turn of the loop appends exactly one row to the raw
  ledger, with these values, and nothing to the stats ledger.
\<close>

lemma failed_detection_row_small_image:
  assumes "\<not> det_success r"
    and "mat_empty (roi_mat r) \<or> (mat_rows (roi_mat r), mat_cols (roi_mat r)) = (3, 3)"
  shows "masks_of env g r =
           \<lparr> back_strict = mat_const 3 3 0, back_loose = mat_const 3 3 0,
             foreground = mat_const 3 3 0, graymask = mat_const 3 3 0,
             has_foreground = False \<rparr> \<and>
         masks_of (env\<lparr>forward := f\<rparr>) g r = masks_of env g r \<and>
         fore_stats r (masks_of env g r) = (- 1, - 1) \<and>
         backsmean r (masks_of env g r) = 0 \<and>
         backlmean r (masks_of env g r) = 0 \<and>
         regen_turn env (r, masks_of env g r) h =
           Inr (h\<lparr> rawfile := rawfile h @ [raw_line env r (masks_of env g r)] \<rparr>) \<and>
         raw_line env r (masks_of env g r) =
           show_int (uid r) @ [tab] @ fname r @ [tab] @ show_int (sid r) @ [tab] @
           sample_name r @ [tab] @ ''.'' @ [tab] @ strpass (scale_success r) @ [tab] @
           ''.'' @ [tab] @ fmt_float env 2 (- 1) @ [tab] @ ''-1'' @ [tab] @
           fmt_float env 2 0 @ [tab] @ fmt_float env 2 0 @ [tab] @
           show_int (scale_dark r) @ [tab] @ show_int (scale_light r) @ [newline]"
proof -
  from assms have m: "masks_of env g r = placeholder" for env
    by (simp add: masks_of_def)
  have fs: "fore_stats r placeholder = (- 1, - 1)"
    by (simp add: fore_stats_def placeholder_def)
  have bs: "backsmean r placeholder = 0" and bl: "backlmean r placeholder = 0"
    by (simp_all add: backsmean_def backlmean_def placeholder_def mean_value_black)
  have gate: "\<not> stats_gate r placeholder"
    using assms by (simp add: stats_gate_def)
  from assms(2) have ok: "\<not> turn_asserts r placeholder"
    by (auto simp: placeholder_asserts)
  have row: "regen_turn env (r, placeholder) h =
      Inr (h\<lparr> rawfile := rawfile h @ [raw_line env r placeholder] \<rparr>)"
    using gate ok by (simp add: regen_turn_eq regen_step_def)
  have m1: "show_int (- 1) = ''-1''"
    by (simp add: show_int_def show_nat.simps digit_char_def)
  have line: "raw_line env r placeholder =
           show_int (uid r) @ [tab] @ fname r @ [tab] @ show_int (sid r) @ [tab] @
           sample_name r @ [tab] @ ''.'' @ [tab] @ strpass (scale_success r) @ [tab] @
           ''.'' @ [tab] @ fmt_float env 2 (- 1) @ [tab] @ ''-1'' @ [tab] @
           fmt_float env 2 0 @ [tab] @ fmt_float env 2 0 @ [tab] @
           show_int (scale_dark r) @ [tab] @ show_int (scale_light r) @ [newline]"
    using assms by (simp add: raw_line_def fs bs bl m1 strpass_def) (simp add: placeholder_def)
  show ?thesis
    unfolding m using fs bs bl row line by (simp add: placeholder_def)
qed

text \<open>
  For every other image the first call of \<^verbatim>\<open>cv::mean\<close> in the turn, with the 3 x 3
  placeholder as its mask, throws: the turn writes no row and the run ends there.
\<close>

lemma failed_detection_throws_with_image:
  assumes "\<not> det_success r" and "\<not> mat_empty (roi_mat r)"
    and "(mat_rows (roi_mat r), mat_cols (roi_mat r)) \<noteq> (3, 3)"
  shows "cv_mean (roi_mat r) (back_strict (masks_of env g r)) = Inl MeanSizeAssert \<and>
         regen_turn env (r, masks_of env g r) h = Inl MeanSizeAssert"
proof -
  from assms have m: "masks_of env g r = placeholder"
    by (simp add: masks_of_def)
  from assms have "turn_asserts r placeholder"
    by (simp add: placeholder_asserts)
  moreover from assms have "mean_asserts (roi_mat r) (back_strict placeholder)"
    by (auto simp: placeholder_def mean_asserts_def mat_empty_def mat_rows_def
      mat_cols_def mat_const_def eval_nat_numeral)
  ultimately show ?thesis
    by (simp add: m regen_turn_eq cv_mean_def)
qed

subsection \<open>The foreground mask\<close>

lemma drawContours_length [simp]: "length (drawContours env img cs idx col) = length img"
  by (simp add: drawContours_def)

lemma drawContours_row_length [simp]:
  "y < length img \<Longrightarrow> length (drawContours env img cs idx col ! y) = length (img ! y)"
  by (simp add: drawContours_def)

lemma drawContours_nth:
  "y < length img \<Longrightarrow> x < length (img ! y) \<Longrightarrow>
   drawContours env img cs idx col ! y ! x =
     (if filled env (cs ! idx) (int x, int y) then col else img ! y ! x)"
  by (simp add: drawContours_def)

lemma contour_step_fg:
  "fst (contour_step env roi cs idc (fg, bgl, d)) =
     (if area_gate (cs ! idc) then drawContours env fg cs idc 255 else fg)"
  by (simp add: contour_step_def area_gate_def Let_def)

lemma contour_step_detected:
  "snd (snd (contour_step env roi cs idc (fg, bgl, d))) = (d \<or> area_gate (cs ! idc))"
  by (auto simp: contour_step_def area_gate_def Let_def)

lemma contour_loop_invariant:
  "k \<le> length cs \<Longrightarrow>
   length (fst (fold (contour_step env roi cs) [0 ..< k] (fg0, bgl0, False))) = length fg0 \<and>
   (\<forall>y < length fg0.
      length (fst (fold (contour_step env roi cs) [0 ..< k] (fg0, bgl0, False)) ! y) =
        length (fg0 ! y) \<and>
      (\<forall>x < length (fg0 ! y).
         fst (fold (contour_step env roi cs) [0 ..< k] (fg0, bgl0, False)) ! y ! x =
           (if \<exists>i < k. area_gate (cs ! i) \<and> filled env (cs ! i) (int x, int y)
            then 255 else fg0 ! y ! x))) \<and>
   snd (snd (fold (contour_step env roi cs) [0 ..< k] (fg0, bgl0, False))) =
     (\<exists>i < k. area_gate (cs ! i))"
proof (induction k)
  case 0
  then show ?case by simp
next
  case (Suc k)
  define st where "st = fold (contour_step env roi cs) [0 ..< k] (fg0, bgl0, False)"
  obtain fg bgl d where st: "st = (fg, bgl, d)" by (cases st)
  from Suc have ih:
    "length fg = length fg0"
    "\<And>y. y < length fg0 \<Longrightarrow> length (fg ! y) = length (fg0 ! y)"
    "\<And>y x. y < length fg0 \<Longrightarrow> x < length (fg0 ! y) \<Longrightarrow>
       fg ! y ! x = (if \<exists>i < k. area_gate (cs ! i) \<and> filled env (cs ! i) (int x, int y)
                     then 255 else fg0 ! y ! x)"
    "d = (\<exists>i < k. area_gate (cs ! i))"
    by (simp_all add: st_def [symmetric] st)
  have step: "fold (contour_step env roi cs) [0 ..< Suc k] (fg0, bgl0, False) =
      contour_step env roi cs k (fg, bgl, d)"
    by (simp add: st_def [symmetric] st)
  show ?case
    unfolding step contour_step_fg contour_step_detected
    using ih by (auto simp: drawContours_nth less_Suc_eq)
qed

text \<open>
  C7: at every position of the ROI, the foreground mask is 255 exactly where some
  extracted contour with \<open>1000 < area < 50000\<close> covers the position with its filled
  region, and 0 elsewhere: it is the union of the filled regions of the passing contours
  and of no other contour. \<^verbatim>\<open>has_foreground\<close> holds exactly when some contour passes
  the area test.
\<close>

theorem foreground_is_union_of_passing_contours:
  assumes "y < mat_rows roi" and "x < mat_cols roi"
  shows "length (foreground (synthesize env g roi)) = mat_rows roi \<and>
         length (foreground (synthesize env g roi) ! y) = mat_cols roi \<and>
         foreground (synthesize env g roi) ! y ! x =
           (if \<exists>c \<in> set (contours_of env g roi). area_gate c \<and> filled env c (int x, int y)
            then 255 else 0) \<and>
         has_foreground (synthesize env g roi) =
           (\<exists>c \<in> set (contours_of env g roi). area_gate c)"
proof -
  define cs where "cs = contours_of env g roi"
  define fg0 where "fg0 = mat_const (mat_rows roi) (mat_cols roi) 0"
  from assms have b: "y < length fg0" "x < length (fg0 ! y)" and z: "fg0 ! y ! x = 0"
    and dims: "length fg0 = mat_rows roi" "length (fg0 ! y) = mat_cols roi"
    by (simp_all add: fg0_def mat_const_def)
  have fg: "foreground (synthesize env g roi) =
      fst (fold (contour_step env roi cs) [0 ..< length cs]
        (fg0, drawContours env fg0
           [[(int padding, int padding), (int (mat_cols roi) - int padding, int padding),
             (int (mat_cols roi) - int padding, int (mat_rows roi) - int padding),
             (int padding, int (mat_rows roi) - int padding)]] 0 255, False))"
    and hf: "has_foreground (synthesize env g roi) =
      snd (snd (fold (contour_step env roi cs) [0 ..< length cs]
        (fg0, drawContours env fg0
           [[(int padding, int padding), (int (mat_cols roi) - int padding, int padding),
             (int (mat_cols roi) - int padding, int (mat_rows roi) - int padding),
             (int padding, int (mat_rows roi) - int padding)]] 0 255, False)))"
    by (simp_all add: synthesize_def Let_def cs_def contours_of_def fg0_def)
  have ex1: "(\<exists>i < length cs. area_gate (cs ! i) \<and> filled env (cs ! i) (int x, int y)) =
      (\<exists>c \<in> set cs. area_gate c \<and> filled env c (int x, int y))"
    by (metis in_set_conv_nth)
  have ex2: "(\<exists>i < length cs. area_gate (cs ! i)) = (\<exists>c \<in> set cs. area_gate c)"
    by (metis in_set_conv_nth)
  from contour_loop_invariant [of "length cs" cs env roi fg0] b z dims
  show ?thesis
    unfolding fg hf cs_def [symmetric] by (simp add: ex1 ex2)
qed

lemma area_square: "contourArea [(0, 0), (40, 0), (40, 40), (0, 40)] = 1600"
  by (simp add: contourArea_def)

theorem foreground_is_union_of_passing_contours_witness:
  "0 < mat_rows small_roi \<and> 0 < mat_cols small_roi \<and>
   foreground (synthesize contour_env initial_globals small_roi) ! 0 ! 0 = 255 \<and>
   has_foreground (synthesize contour_env initial_globals small_roi)"
proof -
  have r: "0 < mat_rows small_roi" and c: "0 < mat_cols small_roi"
    by (simp_all add: small_roi_def mat_rows_def mat_cols_def)
  have cs: "contours_of contour_env initial_globals small_roi =
      [[(0, 0), (40, 0), (40, 40), (0, 40)], [(0, 0), (1, 0), (1, 1), (0, 1)]]"
    by (simp add: contours_of_def contour_env_def)
  have g: "area_gate [(0, 0), (40, 0), (40, 40), (0, 40)]"
    by (simp add: area_gate_def area_square)
  have f: "filled contour_env [(0, 0), (40, 0), (40, 40), (0, 40)] (0, 0)"
    by (simp add: contour_env_def box_filled_def boundingRect_def)
  from foreground_is_union_of_passing_contours [OF r c, of contour_env initial_globals]
  show ?thesis using r c g f by (simp add: cs)
qed

subsection \<open>The background masks\<close>

lemma fold_min_le_init: "fold min xs (a :: 'a :: linorder) \<le> a"
proof (induction xs arbitrary: a)
  case Nil
  show ?case by simp
next
  case (Cons x xs)
  have "fold min xs (min x a) \<le> min x a" by (rule Cons.IH)
  then show ?case by (simp add: min_le_iff_disj)
qed

lemma fold_min_le_elem: "x \<in> set xs \<Longrightarrow> fold min xs (a :: 'a :: linorder) \<le> x"
proof (induction xs arbitrary: a)
  case Nil
  then show ?case by simp
next
  case (Cons z zs)
  show ?case
  proof (cases "x = z")
    case True
    have "fold min zs (min z a) \<le> min z a" by (rule fold_min_le_init)
    with True show ?thesis by (simp add: min_le_iff_disj)
  next
    case False
    with Cons.prems have "x \<in> set zs" by simp
    then show ?thesis using Cons.IH by simp
  qed
qed

lemma centre_in_window3:
  assumes "y < length m" and "x < length (m ! y)"
  shows "m ! y ! x \<in> set (window3 m x y)"
proof -
  have rows: "y \<in> set (filter (\<lambda>j. j < length m) [y - 1 ..< y + 2])"
    using assms(1) by (simp only: set_filter set_upt) simp
  have cols: "x \<in> set (filter (\<lambda>i. i < length (m ! y)) [x - 1 ..< x + 2])"
    using assms(2) by (simp only: set_filter set_upt) simp
  from cols have elem:
    "m ! y ! x \<in> set (map (\<lambda>i. m ! y ! i) (filter (\<lambda>i. i < length (m ! y)) [x - 1 ..< x + 2]))"
    by (simp only: set_map image_iff) blast
  show ?thesis
    unfolding window3_def
    by (simp only: set_concat set_map) (rule UN_I [OF imageI [OF rows]], rule elem)
qed

lemma erode3_length [simp]: "length (erode3 m) = length m"
  by (simp add: erode3_def)

lemma erode3_row_length [simp]: "y < length m \<Longrightarrow> length (erode3 m ! y) = length (m ! y)"
  by (simp add: erode3_def)

lemma erode3_le:
  "y < length m \<Longrightarrow> x < length (m ! y) \<Longrightarrow> erode3 m ! y ! x \<le> m ! y ! x"
  by (simp add: erode3_def fold_min_le_elem centre_in_window3)

lemma erode3_iter:
  "length ((erode3 ^^ n) m) = length m \<and>
   (\<forall>y < length m. length ((erode3 ^^ n) m ! y) = length (m ! y) \<and>
      (\<forall>x < length (m ! y). (erode3 ^^ n) m ! y ! x \<le> m ! y ! x))"
proof (induction n)
  case 0
  show ?case by simp
next
  case (Suc n)
  show ?case
  proof (intro conjI allI impI)
    show "length ((erode3 ^^ Suc n) m) = length m" using Suc by simp
  next
    fix y assume y: "y < length m"
    with Suc show "length ((erode3 ^^ Suc n) m ! y) = length (m ! y)" by simp
  next
    fix y x assume y: "y < length m" and x: "x < length (m ! y)"
    from Suc y x have a: "y < length ((erode3 ^^ n) m)" "x < length ((erode3 ^^ n) m ! y)"
      and b: "(erode3 ^^ n) m ! y ! x \<le> m ! y ! x" by simp_all
    from erode3_le [OF a] b show "(erode3 ^^ Suc n) m ! y ! x \<le> m ! y ! x" by simp
  qed
qed

lemma nonzero_erode:
  "nonzero_at (morphologyEx m MORPH_ERODE n) x y \<Longrightarrow> nonzero_at m x y"
proof -
  assume a: "nonzero_at (morphologyEx m MORPH_ERODE n) x y"
  from a erode3_iter [of n m] have y: "y < length m" by (simp add: nonzero_at_def)
  with a erode3_iter [of n m] have x: "x < length (m ! y)" by (simp add: nonzero_at_def)
  from erode3_iter [of n m] y x have "(erode3 ^^ n) m ! y ! x \<le> m ! y ! x" by simp
  moreover from a have "(erode3 ^^ n) m ! y ! x \<noteq> 0" by (simp add: nonzero_at_def)
  ultimately have "m ! y ! x \<noteq> 0" by (auto simp: word_le_0_iff)
  with y x show ?thesis by (simp add: nonzero_at_def)
qed

text \<open>
  C8: for an ROI whose detection succeeded, the strict background mask is the loose one
  eroded five times (the padding) with the 3 x 3 square, and every nonzero pixel of the
  strict mask is a nonzero pixel of the loose mask.
\<close>

theorem strict_background_within_loose:
  assumes "det_success r"
  shows "back_strict (masks_of env g r) =
           morphologyEx (back_loose (masks_of env g r)) MORPH_ERODE 5 \<and>
         (nonzero_at (back_strict (masks_of env g r)) x y \<longrightarrow>
            nonzero_at (back_loose (masks_of env g r)) x y)"
proof -
  from assms have "back_strict (masks_of env g r) =
      morphologyEx (back_loose (masks_of env g r)) MORPH_ERODE 5"
    by (simp add: masks_of_def synthesize_def Let_def padding_def del: morphologyEx.simps)
  then show ?thesis using nonzero_erode by metis
qed

lemma erode_five:
  "morphologyEx m MORPH_ERODE 5 = erode3 (erode3 (erode3 (erode3 (erode3 m))))"
  by (simp add: eval_nat_numeral)

lemma erode3_white: "erode3 [[255, 255]] = [[255, 255]]"
  by (simp add: erode3_def window3_def)

theorem strict_background_within_loose_witness:
  "det_success test_record \<and>
   nonzero_at (back_strict (masks_of test_env initial_globals test_record)) 0 0 \<and>
   nonzero_at (back_loose (masks_of test_env initial_globals test_record)) 0 0"
proof -
  have d: "det_success test_record"
    by (simp add: test_record_def)
  have l: "back_loose (masks_of test_env initial_globals test_record) = [[255, 255]]"
    by (simp add: masks_of_def test_record_def synthesize_def Let_def test_env_def
        drawContours_def mat_const_def mat_rows_def mat_cols_def)
  from strict_background_within_loose [OF d, of test_env initial_globals 0 0]
  have s: "back_strict (masks_of test_env initial_globals test_record) = [[255, 255]]"
    and i: "nonzero_at (back_strict (masks_of test_env initial_globals test_record)) 0 0 \<longrightarrow>
            nonzero_at (back_loose (masks_of test_env initial_globals test_record)) 0 0"
    by (simp_all add: l erode_five erode3_white del: morphologyEx.simps)
  have "nonzero_at (back_strict (masks_of test_env initial_globals test_record)) 0 0"
    by (simp add: s nonzero_at_def)
  with i d show ?thesis by simp
qed

subsection \<open>The sizes of the masks\<close>

text \<open>
  The masks synthesized for an ROI keep the size of its image through every drawing and
  every erosion or dilation, so the calls of \<^verbatim>\<open>cv::mean\<close> for an ROI whose detection
  succeeded do not throw: a turn of the second loop can only throw for a failed
  detection, whose masks are the 3 x 3 placeholders.
\<close>

lemma drawContours_shape: "map length (drawContours env img cs idx col) = map length img"
  by (rule nth_equalityI) (simp_all add: drawContours_def)

lemma erode3_shape: "map length (erode3 m) = map length m"
  by (rule nth_equalityI) (simp_all add: erode3_def)

lemma dilate3_shape: "map length (dilate3 m) = map length m"
  by (rule nth_equalityI) (simp_all add: dilate3_def)

lemma morphologyEx_shape: "map length (morphologyEx m op n) = map length m"
proof (cases op)
  case MORPH_ERODE
  have "map length ((erode3 ^^ n) m) = map length m"
    by (induction n) (simp_all add: erode3_shape)
  with MORPH_ERODE show ?thesis by simp
next
  case MORPH_DILATE
  have "map length ((dilate3 ^^ n) m) = map length m"
    by (induction n) (simp_all add: dilate3_shape)
  with MORPH_DILATE show ?thesis by simp
qed

lemma contour_step_shape:
  "map length (fst (contour_step env roi cs idc (fg, bgl, d))) = map length fg \<and>
   map length (fst (snd (contour_step env roi cs idc (fg, bgl, d)))) = map length bgl"
  by (simp add: contour_step_def Let_def drawContours_shape)

lemma contour_fold_shape:
  "map length (fst (fold (contour_step env roi cs) is (fg, bgl, d))) = map length fg \<and>
   map length (fst (snd (fold (contour_step env roi cs) is (fg, bgl, d)))) = map length bgl"
proof (induction "is" arbitrary: fg bgl d)
  case Nil
  show ?case by simp
next
  case (Cons i "is")
  obtain fg1 bgl1 d1 where st: "contour_step env roi cs i (fg, bgl, d) = (fg1, bgl1, d1)"
    by (cases "contour_step env roi cs i (fg, bgl, d)") auto
  from contour_step_shape [of env roi cs i fg bgl d] st
  have "map length fg1 = map length fg" "map length bgl1 = map length bgl" by simp_all
  with Cons.IH [of fg1 bgl1 d1] st show ?case by simp
qed

lemma synthesize_shape:
  "map length (foreground (synthesize env g roi)) =
     replicate (mat_rows roi) (mat_cols roi)"
  "map length (back_loose (synthesize env g roi)) =
     replicate (mat_rows roi) (mat_cols roi)"
  "map length (back_strict (synthesize env g roi)) =
     replicate (mat_rows roi) (mat_cols roi)"
  by (simp_all add: synthesize_def Let_def morphologyEx_shape contour_fold_shape
      drawContours_shape mat_const_def del: morphologyEx.simps)

lemma mean_asserts_same_shape:
  assumes "map length msk = replicate (mat_rows src) (mat_cols src)"
  shows "\<not> mean_asserts src msk"
proof (cases "mat_empty src")
  case True
  then show ?thesis by (simp add: mean_asserts_def)
next
  case False
  then have r: "0 < mat_rows src" by (simp add: mat_empty_def)
  from assms have l: "length msk = mat_rows src"
    by (metis length_map length_replicate)
  from r obtain k where k: "mat_rows src = Suc k"
    by (cases "mat_rows src") auto
  with assms have "map length msk = mat_cols src # replicate k (mat_cols src)"
    by simp
  then have "mat_cols msk = mat_cols src"
    by (cases msk) (auto simp: mat_cols_def)
  with l show ?thesis by (simp add: mean_asserts_def mat_rows_def)
qed

lemma detected_turn_returns: "det_success r \<Longrightarrow> \<not> turn_asserts r (masks_of env g r)"
  by (simp add: turn_asserts_def masks_of_def mean_asserts_same_shape synthesize_shape
      morphologyEx_shape del: morphologyEx.simps)

text \<open>
  The turn of the loop as a whole, for the masks the first loop made: it completes and
  appends the stats row exactly under the gate.
\<close>

lemma stats_row_of_turn:
  "(\<exists>h'. regen_turn env (r, masks_of env g r) h = Inr h' \<and>
          statfile h' = statfile h @ [stat_line env r (masks_of env g r)]) \<longleftrightarrow>
   stats_gate r (masks_of env g r)"
proof
  assume "stats_gate r (masks_of env g r)"
  moreover from this have "det_success r" by (simp add: stats_gate_def)
  ultimately show "\<exists>h'. regen_turn env (r, masks_of env g r) h = Inr h' \<and>
          statfile h' = statfile h @ [stat_line env r (masks_of env g r)]"
    using detected_turn_returns [of r env g] by (simp add: regen_turn_eq regen_step_def)
next
  assume "\<exists>h'. regen_turn env (r, masks_of env g r) h = Inr h' \<and>
          statfile h' = statfile h @ [stat_line env r (masks_of env g r)]"
  then show "stats_gate r (masks_of env g r)"
    by (cases "stats_gate r (masks_of env g r)")
       (auto simp: regen_turn_eq regen_step_def split: if_splits)
qed

subsection \<open>The carry-forward loops and the rows of the run\<close>

lemma carried_eq_concat:
  "carried uids lines lo hi = concat (map (emit_matching uids lines) [lo .. hi])"
  by (simp add: carried_def carried_indices_def emit_matching_def [abs_def] map_concat comp_def)

lemma carried_empty [simp]: "hi < lo \<Longrightarrow> carried uids lines lo hi = []"
  by (simp add: carried_eq_concat)

lemma carried_rec:
  "lo \<le> hi \<Longrightarrow> carried uids lines lo hi = emit_matching uids lines lo @ carried uids lines (lo + 1) hi"
  by (simp add: carried_eq_concat upto_rec1 [of lo hi])

lemma configure_fields [simp]:
  "start_id (configure m n c) = m" "end_id (configure m n c) = n"
  "max_id (configure m n c) = 1" "rawlines (configure m n c) = []"
  "rawuids (configure m n c) = []" "statlines (configure m n c) = []"
  "statuids (configure m n c) = []" "rawfile (configure m n c) = []"
  "statfile (configure m n c) = []"
  by (simp_all add: configure_def initial_globals_def)

lemma carry_step_fields [simp]:
  "start_id (carry_step i g) = start_id g" "end_id (carry_step i g) = end_id g"
  "max_id (carry_step i g) = max_id g" "rawuids (carry_step i g) = rawuids g"
  "rawlines (carry_step i g) = rawlines g" "statuids (carry_step i g) = statuids g"
  "statlines (carry_step i g) = statlines g"
  by (simp_all add: carry_step_def)

lemma carry_low_eq:
  "carry_low i g =
     g\<lparr> rawfile := rawfile g @ carried (rawuids g) (rawlines g) i (start_id g - 1),
        statfile := statfile g @ carried (statuids g) (statlines g) i (start_id g - 1) \<rparr>"
proof (induction i g rule: carry_low.induct)
  case (1 i g)
  show ?case
  proof (cases "i < start_id g")
    case True
    then have "carry_low i g = carry_low (i + 1) (carry_step i g)"
      by (simp add: carry_low.simps [of i g])
    also have "\<dots> = (carry_step i g)
       \<lparr> rawfile := rawfile (carry_step i g) @
            carried (rawuids g) (rawlines g) (i + 1) (start_id g - 1),
         statfile := statfile (carry_step i g) @
            carried (statuids g) (statlines g) (i + 1) (start_id g - 1) \<rparr>"
      using "1.IH" [OF True] by simp
    also have "\<dots> = g\<lparr> rawfile := rawfile g @ carried (rawuids g) (rawlines g) i (start_id g - 1),
        statfile := statfile g @ carried (statuids g) (statlines g) i (start_id g - 1) \<rparr>"
      using True by (simp add: carry_step_def carried_rec [of i "start_id g - 1"])
    finally show ?thesis .
  next
    case False
    then show ?thesis by (simp add: carry_low.simps [of i g])
  qed
qed

text \<open>The last loop ends when \<^verbatim>\<open>max_id\<close> is below \<^verbatim>\<open>INT32_MAX\<close>.\<close>

lemma carry_high_ends:
  "max_id g < INT32_MAX \<Longrightarrow>
   carry_high i g =
     Some (g\<lparr> rawfile := rawfile g @ carried (rawuids g) (rawlines g) i (max_id g),
               statfile := statfile g @ carried (statuids g) (statlines g) i (max_id g) \<rparr>)"
proof (induction "nat (max_id g + 1 - i)" arbitrary: i g rule: less_induct)
  case less
  show ?case
  proof (cases "i \<le> max_id g")
    case False
    then show ?thesis by (simp add: carry_high.simps [of i g])
  next
    case True
    with less.prems have nx: "next_int32 i = i + 1"
      by (simp add: next_int32_def)
    from True have "carry_high i g = carry_high (i + 1) (carry_step i g)"
      by (subst carry_high.simps) (simp add: nx)
    also have "\<dots> = Some ((carry_step i g)
       \<lparr> rawfile := rawfile (carry_step i g) @
            carried (rawuids g) (rawlines g) (i + 1) (max_id g),
         statfile := statfile (carry_step i g) @
            carried (statuids g) (statlines g) (i + 1) (max_id g) \<rparr>)"
      using less.hyps [of "carry_step i g" "i + 1"] True less.prems by simp
    also have "\<dots> = Some (g\<lparr> rawfile := rawfile g @ carried (rawuids g) (rawlines g) i (max_id g),
        statfile := statfile g @ carried (statuids g) (statlines g) i (max_id g) \<rparr>)"
      using True by (simp add: carry_step_def carried_rec [of i "max_id g"])
    finally show ?thesis .
  qed
qed

text \<open>
  With \<^verbatim>\<open>max_id = INT32_MAX\<close> the loop, once entered, does not return: its test
  holds for every value an \<^verbatim>\<open>int\<close> takes.
\<close>

lemma next_int32_le: "i \<le> INT32_MAX \<Longrightarrow> next_int32 i \<le> INT32_MAX"
  by (simp add: next_int32_def INT32_MAX_def INT32_MIN_def)

lemma carry_high_Some:
  assumes "carry_high i g = Some y"
  shows "\<not> (INT32_MAX \<le> max_id g \<and> i \<le> INT32_MAX)"
proof (rule carry_high.raw_induct
    [where P = "\<lambda>i g y. \<not> (INT32_MAX \<le> max_id g \<and> i \<le> INT32_MAX)" and i = i and g = g
       and y = y])
  show "carry_high i g = Some y" by fact
next
  fix f :: "int \<Rightarrow> globals \<Rightarrow> globals option" and i g y
  assume IH: "\<And>i g y. f i g = Some y \<Longrightarrow> \<not> (INT32_MAX \<le> max_id g \<and> i \<le> INT32_MAX)"
    and eq: "(if i \<le> max_id g then f (next_int32 i) (carry_step i g) else Some g) = Some y"
  show "\<not> (INT32_MAX \<le> max_id g \<and> i \<le> INT32_MAX)"
  proof
    assume a: "INT32_MAX \<le> max_id g \<and> i \<le> INT32_MAX"
    with eq have "f (next_int32 i) (carry_step i g) = Some y" by simp
    from IH [OF this] a next_int32_le [of i] show False by simp
  qed
qed

lemma carry_high_never_ends:
  "INT32_MAX \<le> max_id g \<Longrightarrow> i \<le> INT32_MAX \<Longrightarrow> carry_high i g = None"
  using carry_high_Some [of i g] by (cases "carry_high i g") auto

lemma carry_high_eq:
  assumes "i \<le> INT32_MAX"
  shows "carry_high i g =
     (if i \<le> max_id g \<and> INT32_MAX \<le> max_id g then None
      else Some (g\<lparr> rawfile := rawfile g @ carried (rawuids g) (rawlines g) i (max_id g),
                     statfile := statfile g @ carried (statuids g) (statlines g) i (max_id g) \<rparr>))"
proof (cases "INT32_MAX \<le> max_id g")
  case False
  then show ?thesis by (simp add: carry_high_ends)
next
  case True
  show ?thesis
  proof (cases "i \<le> max_id g")
    case True
    with \<open>INT32_MAX \<le> max_id g\<close> assms show ?thesis by (simp add: carry_high_never_ends)
  next
    case False
    then show ?thesis by (simp add: carry_high.simps [of i g])
  qed
qed

lemma regen_fold:
  "fold_err (regen_turn env) rms g =
     (if \<exists>rm \<in> set rms. turn_asserts (fst rm) (snd rm) then Inl MeanSizeAssert
      else Inr (g\<lparr> rawfile := rawfile g @ map (\<lambda>rm. raw_line env (fst rm) (snd rm)) rms,
                    statfile := statfile g @
                      map (\<lambda>rm. stat_line env (fst rm) (snd rm))
                        (filter (\<lambda>rm. stats_gate (fst rm) (snd rm)) rms) \<rparr>))"
  by (induction rms arbitrary: g) (simp_all add: regen_turn_eq regen_step_def)

lemma zip_map_self: "zip xs (map f xs) = map (\<lambda>x. (x, f x)) xs"
  by (induction xs) simp_all

lemma regen_phase_eq:
  "regen_phase env recs g =
     (if \<exists>r \<in> set recs. turn_asserts r (masks_of env g r) then Inl MeanSizeAssert
      else Inr (g\<lparr> rawfile := rawfile g @ carried (rawuids g) (rawlines g) 1 (start_id g - 1) @
                      fresh_raw env g recs,
                    statfile := statfile g @
                      carried (statuids g) (statlines g) 1 (start_id g - 1) @
                      fresh_stat env g recs \<rparr>))"
  by (simp add: regen_phase_def regen_fold carry_low_eq zip_map_self fresh_raw_def
      fresh_stat_def filter_map comp_def)

lemma process_eq:
  "process env recs g =
     (if \<exists>r \<in> set recs. turn_asserts r (masks_of env g r) then Some (Inl MeanSizeAssert)
      else if end_overflow (end_id g) then Some (Inl SignedOverflow)
      else if never_ends (end_id g) (max_id g) then None
      else Some (Inr (g\<lparr> rawfile := rawfile g @
                          carried (rawuids g) (rawlines g) 1 (start_id g - 1) @
                          fresh_raw env g recs @
                          carried (rawuids g) (rawlines g) (end_id g + 1) (max_id g),
                        statfile := statfile g @
                          carried (statuids g) (statlines g) 1 (start_id g - 1) @
                          fresh_stat env g recs @
                          carried (statuids g) (statlines g) (end_id g + 1) (max_id g) \<rparr>)))"
  by (simp add: process_def high_loop_start_def add_int32_def regen_phase_eq
      carry_high_eq end_overflow_def never_ends_def)

lemma distinct_concat_map:
  "distinct xs \<Longrightarrow> (\<And>x. x \<in> set xs \<Longrightarrow> distinct (f x)) \<Longrightarrow>
   (\<And>x y. x \<in> set xs \<Longrightarrow> y \<in> set xs \<Longrightarrow> x \<noteq> y \<Longrightarrow> set (f x) \<inter> set (f y) = {}) \<Longrightarrow>
   distinct (concat (map f xs))"
proof (induction xs)
  case Nil
  show ?case by simp
next
  case (Cons a xs)
  have "distinct (concat (map f xs))"
    using Cons by simp
  moreover have "distinct (f a)" using Cons.prems by simp
  moreover have "set (f a) \<inter> set (f y) = {}" if "y \<in> set xs" for y
    using Cons.prems(1) Cons.prems(3) [of a y] that by auto
  ultimately show ?case by auto
qed

lemma set_carried_indices:
  "set (carried_indices uids lo hi) = {j. j < length uids \<and> lo \<le> uids ! j \<and> uids ! j \<le> hi}"
  by (auto simp: carried_indices_def)

lemma distinct_carried_indices: "distinct (carried_indices uids lo hi)"
  unfolding carried_indices_def
  by (rule distinct_concat_map) auto

lemma scan_line_Inr:
  assumes "scan_line env ll (g, recs) = Inr (g1, recs1)"
  shows "g1 = g\<lparr>max_id :=
           fold max (filter (\<lambda>u. \<not> (start_id g \<le> u \<and> u \<le> end_id g))
                       (case first_uid ll of None \<Rightarrow> [] | Some u \<Rightarrow> [u])) (max_id g)\<rparr>"
  using assms
  by (auto simp: scan_line_def first_uid_def Let_def max_def
      split: if_splits option.splits prod.splits)

lemma scan_fold_max:
  "fold_err (scan_line env) lls (g, recs) = Inr (g', recs') \<Longrightarrow>
   g' = g\<lparr>max_id :=
          fold max (filter (\<lambda>u. \<not> (start_id g \<le> u \<and> u \<le> end_id g))
                      (List.map_filter first_uid lls)) (max_id g)\<rparr>"
proof (induction lls arbitrary: g recs)
  case Nil
  then show ?case by (simp add: List.map_filter_simps)
next
  case (Cons ll lls)
  from Cons.prems obtain g1 recs1 where
    step: "scan_line env ll (g, recs) = Inr (g1, recs1)" and
    rest: "fold_err (scan_line env) lls (g1, recs1) = Inr (g', recs')"
    by (auto split: sum.splits)
  note g1 = scan_line_Inr [OF step]
  have se: "start_id g1 = start_id g" "end_id g1 = end_id g"
    by (subst g1, simp)+
  from Cons.IH [OF rest] se have
    "g' = g1\<lparr>max_id :=
          fold max (filter (\<lambda>u. \<not> (start_id g \<le> u \<and> u \<le> end_id g))
                      (List.map_filter first_uid lls)) (max_id g1)\<rparr>"
    by simp
  then show ?case
    by (subst (asm) (1 2) g1) (simp add: List.map_filter_simps split: option.splits)
qed

text \<open>
  C4 (amended): \<^verbatim>\<open>max_id\<close> starts at 1 and the scan raises it only to the uid of a
  manifest row it skips as out of range: after the scan it is the larger of 1 and the
  highest skipped uid. When the second loop of \<^verbatim>\<open>process\<close> has completed,
  \<^verbatim>\<open>end_id + 1\<close> does not overflow and \<^verbatim>\<open>max_id\<close> is below \<^verbatim>\<open>INT32_MAX\<close>, the last
  loop ends and the run completes, having appended to each ledger the prior lines at the
  indices \<open>carried_indices uids (end_id + 1) max_id\<close>: every prior line whose uid lies
  between \<^verbatim>\<open>end_id + 1\<close> and \<^verbatim>\<open>max_id\<close>, each once, id by id in loading order; a
  line whose uid exceeds \<^verbatim>\<open>max_id\<close> is not among them.
\<close>

theorem carry_forward_high_bound:
  assumes "scan_manifest env manifest g0 = Inr (g, recs)"
    and "max_id g0 = 1"
    and "regen_phase env recs g = Inr g2"
    and "INT32_MIN \<le> end_id g0" and "end_id g0 < INT32_MAX" and "max_id g < INT32_MAX"
  shows "max_id g = fold max (skipped_uids (unix env) g0 manifest) 1 \<and>
         process env recs g =
           Some (Inr (g2
             \<lparr> rawfile := rawfile g2 @
                 map (\<lambda>j. rawlines g0 ! j)
                   (carried_indices (rawuids g0) (end_id g0 + 1) (max_id g)),
               statfile := statfile g2 @
                 map (\<lambda>j. statlines g0 ! j)
                   (carried_indices (statuids g0) (end_id g0 + 1) (max_id g)) \<rparr>)) \<and>
         set (carried_indices (rawuids g0) (end_id g0 + 1) (max_id g)) =
           {j. j < length (rawuids g0) \<and> end_id g0 < rawuids g0 ! j \<and> rawuids g0 ! j \<le> max_id g} \<and>
         set (carried_indices (statuids g0) (end_id g0 + 1) (max_id g)) =
           {j. j < length (statuids g0) \<and> end_id g0 < statuids g0 ! j \<and>
               statuids g0 ! j \<le> max_id g} \<and>
         distinct (carried_indices (rawuids g0) (end_id g0 + 1) (max_id g)) \<and>
         distinct (carried_indices (statuids g0) (end_id g0 + 1) (max_id g))"
proof -
  from assms(1) have g: "g = g0\<lparr>max_id := fold max (skipped_uids (unix env) g0 manifest) (max_id g0)\<rparr>"
    unfolding scan_manifest_def skipped_uids_def by (rule scan_fold_max)
  have f: "rawuids g = rawuids g0" "rawlines g = rawlines g0" "statuids g = statuids g0"
    "statlines g = statlines g0" "end_id g = end_id g0"
    by (subst g, simp)+
  have m: "max_id g = fold max (skipped_uids (unix env) g0 manifest) 1"
    by (subst g) (simp add: assms(2))
  from assms(3) have g2: "g2 =
      g\<lparr> rawfile := rawfile g @ carried (rawuids g) (rawlines g) 1 (start_id g - 1) @
            fresh_raw env g recs,
         statfile := statfile g @ carried (statuids g) (statlines g) 1 (start_id g - 1) @
            fresh_stat env g recs \<rparr>"
    and ok: "\<not> (\<exists>r \<in> set recs. turn_asserts r (masks_of env g r))"
    by (auto simp: regen_phase_eq split: if_splits)
  from assms(4) assms(5) assms(6) have ov: "\<not> end_overflow (end_id g)"
    "\<not> never_ends (end_id g) (max_id g)"
    by (simp_all add: f end_overflow_def never_ends_def)
  have p: "process env recs g =
      Some (Inr (g2\<lparr> rawfile := rawfile g2 @
                       carried (rawuids g) (rawlines g) (end_id g + 1) (max_id g),
                     statfile := statfile g2 @
                       carried (statuids g) (statlines g) (end_id g + 1) (max_id g) \<rparr>))"
    unfolding process_eq using ok ov by (subst (1 2 3) g2) simp
  show ?thesis
    using m p by (auto simp: f carried_def set_carried_indices distinct_carried_indices)
qed

lemma atoi_3: "atoi ''3'' = 3"
  by (simp add: atoi_def isspace_def isdigit_def clamp_int32_def INT32_MAX_def INT32_MIN_def)

lemma atoi_max: "atoi ''2147483647'' = INT32_MAX"
  by (simp add: atoi_def isspace_def isdigit_def clamp_int32_def INT32_MAX_def INT32_MIN_def)

lemma scan_skipped:
  "scan_manifest test_env skipped_manifest prior_globals = Inr (prior_globals\<lparr>max_id := 3\<rparr>, [])"
  by (simp add: scan_manifest_def skipped_manifest_def test_env_def getlines_Cons getlines_Nil
      max_line_len_def c_str_def NUL_def newline_def tab_def scan_line_def next_col_def atoi_3
      prior_globals_def configure_def initial_globals_def)

lemma carried_indices_test: "carried_indices [2, 3, 9] 2 3 = [0, 1]"
  by code_simp

lemma regen_skipped:
  "regen_phase test_env [] (prior_globals\<lparr>max_id := 3\<rparr>) = Inr (prior_globals\<lparr>max_id := 3\<rparr>)"
  by (simp add: regen_phase_eq prior_globals_def configure_def initial_globals_def
      fresh_raw_def fresh_stat_def)

theorem carry_forward_high_bound_witness:
  "scan_manifest test_env skipped_manifest prior_globals = Inr (prior_globals\<lparr>max_id := 3\<rparr>, []) \<and>
   max_id prior_globals = 1 \<and>
   regen_phase test_env [] (prior_globals\<lparr>max_id := 3\<rparr>) = Inr (prior_globals\<lparr>max_id := 3\<rparr>) \<and>
   INT32_MIN \<le> end_id prior_globals \<and> end_id prior_globals < INT32_MAX \<and>
   max_id (prior_globals\<lparr>max_id := 3\<rparr>) < INT32_MAX \<and>
   skipped_uids (unix test_env) prior_globals skipped_manifest = [3] \<and>
   process test_env [] (prior_globals\<lparr>max_id := 3\<rparr>) =
     Some (Inr (prior_globals\<lparr>max_id := 3,
            rawfile := [''2'' @ [tab] @ ''a'' @ [newline], ''3'' @ [tab] @ ''b'' @ [newline]]\<rparr>)) \<and>
   set (carried_indices (rawuids prior_globals) (end_id prior_globals + 1) 3) = {0, 1}"
proof -
  have m: "max_id prior_globals = 1"
    by (simp add: prior_globals_def)
  have e: "INT32_MIN \<le> end_id prior_globals" "end_id prior_globals < INT32_MAX"
    "max_id (prior_globals\<lparr>max_id := 3\<rparr>) < INT32_MAX"
    by (simp_all add: prior_globals_def INT32_MIN_def INT32_MAX_def)
  have s: "skipped_uids (unix test_env) prior_globals skipped_manifest = [3]"
    by (simp add: prior_globals_def configure_def initial_globals_def test_env_def
        skipped_uids_def skipped_manifest_def getlines_Cons getlines_Nil max_line_len_def
        c_str_def NUL_def newline_def tab_def List.map_filter_simps first_uid_def next_col_def
        atoi_3)
  have c: "carried_indices (rawuids prior_globals) (end_id prior_globals + 1) 3 = [0, 1]"
    by (simp add: prior_globals_def configure_def initial_globals_def carried_indices_test)
  from carry_forward_high_bound [OF scan_skipped m regen_skipped e]
  have "process test_env [] (prior_globals\<lparr>max_id := 3\<rparr>) =
      Some (Inr (prior_globals\<lparr>max_id := 3,
        rawfile := [''2'' @ [tab] @ ''a'' @ [newline], ''3'' @ [tab] @ ''b'' @ [newline]]\<rparr>))"
    by (simp add: c) (simp add: prior_globals_def configure_def initial_globals_def
        carried_indices_def)
  with scan_skipped m regen_skipped e s c show ?thesis by simp
qed

text \<open>
  C4 as stated fails. With the range [0, 0] and an empty manifest no uid is observed at
  all, yet the prior line for uid 1 is re-emitted by the last loop, because \<^verbatim>\<open>max_id\<close>
  starts at 1. And with a skipped manifest row whose uid is \<^verbatim>\<open>INT32_MAX\<close> the last
  loop re-emits lines for ever: the run does not return.
\<close>

theorem carry_forward_high_bound_counterexample:
  "scan_manifest test_env [] globals_e = Inr (globals_e, []) \<and>
   skipped_uids (unix test_env) globals_e [] = [] \<and>
   end_id globals_e + 1 = 1 \<and>
   process test_env [] globals_e =
     Some (Inr (globals_e\<lparr>rawfile := [''1'' @ [tab] @ ''a'' @ [newline]]\<rparr>)) \<and>
   scan_manifest test_env manifest_max prior_globals =
     Inr (prior_globals\<lparr>max_id := INT32_MAX\<rparr>, []) \<and>
   process test_env [] (prior_globals\<lparr>max_id := INT32_MAX\<rparr>) = None"
proof -
  have a: "scan_manifest test_env [] globals_e = Inr (globals_e, [])"
    by (simp add: scan_manifest_def getlines_Nil)
  have b: "skipped_uids (unix test_env) globals_e [] = []"
    by (simp add: skipped_uids_def getlines_Nil List.map_filter_simps)
  have c: "end_id globals_e + 1 = 1"
    by (simp add: globals_e_def)
  have d: "process test_env [] globals_e =
      Some (Inr (globals_e\<lparr>rawfile := [''1'' @ [tab] @ ''a'' @ [newline]]\<rparr>))"
    by (simp add: process_eq globals_e_def configure_def initial_globals_def end_overflow_def
        never_ends_def INT32_MAX_def INT32_MIN_def carried_def carried_indices_def
        fresh_raw_def fresh_stat_def)
  have e: "scan_manifest test_env manifest_max prior_globals =
      Inr (prior_globals\<lparr>max_id := INT32_MAX\<rparr>, [])"
    by (simp add: scan_manifest_def manifest_max_def test_env_def getlines_Cons getlines_Nil
        max_line_len_def c_str_def NUL_def newline_def tab_def scan_line_def next_col_def
        atoi_max)
       (simp add: prior_globals_def configure_def initial_globals_def INT32_MAX_def)
  have f: "process test_env [] (prior_globals\<lparr>max_id := INT32_MAX\<rparr>) = None"
    by (simp add: process_eq prior_globals_def configure_def initial_globals_def
        end_overflow_def never_ends_def INT32_MAX_def INT32_MIN_def)
  from a b c d e f show ?thesis by simp
qed

subsection \<open>Strings and numbers\<close>

lemma strchr_None_iff: "strchr s ch = None \<longleftrightarrow> ch \<notin> set s"
  by (induction s) auto

lemma strchr_Some:
  "strchr s ch = Some k \<Longrightarrow> k < length s \<and> s ! k = ch \<and> take k s = takeWhile (\<lambda>c. c \<noteq> ch) s"
proof (induction s arbitrary: k)
  case Nil
  then show ?case by simp
next
  case (Cons c cs)
  show ?case
  proof (cases "c = ch")
    case True
    with Cons.prems show ?thesis by simp
  next
    case False
    with Cons.prems obtain k' where k': "strchr cs ch = Some k'" "k = Suc k'"
      by auto
    with Cons.IH [OF k'(1)] False show ?thesis by simp
  qed
qed




















subsection \<open>Lines read back\<close>

lemma fgets_split: "fgets n s = (l, r) \<Longrightarrow> s = l @ r"
  by (induction n s arbitrary: l r rule: fgets.induct) (auto split: if_splits prod.splits)










subsection \<open>Loading and scanning\<close>

lemma load_raw_line_eq:
  "load_raw_line ll g =
     (if tab \<in> set (fst ll)
      then Inr (g\<lparr> rawlines := rawlines g @ [fst ll],
                    rawuids := rawuids g @ [line_uid (fst ll)] \<rparr>)
      else Inl NullDeref)"
proof (cases "strchr (fst ll) tab")
  case None
  then show ?thesis by (simp add: load_raw_line_def strchr_None_iff [symmetric])
next
  case (Some k)
  then have "tab \<in> set (fst ll)"
    using strchr_None_iff [of "fst ll" tab] by auto
  with Some strchr_Some [OF Some] show ?thesis
    by (simp add: load_raw_line_def line_uid_def)
qed

lemma load_stat_line_eq:
  "load_stat_line ll g =
     (if tab \<in> set (fst ll)
      then Inr (g\<lparr> statlines := statlines g @ [fst ll],
                    statuids := statuids g @ [line_uid (fst ll)] \<rparr>)
      else Inl NullDeref)"
proof (cases "strchr (fst ll) tab")
  case None
  then show ?thesis by (simp add: load_stat_line_def strchr_None_iff [symmetric])
next
  case (Some k)
  then have "tab \<in> set (fst ll)"
    using strchr_None_iff [of "fst ll" tab] by auto
  with Some strchr_Some [OF Some] show ?thesis
    by (simp add: load_stat_line_def line_uid_def)
qed

lemma fold_load_raw:
  "fold_err load_raw_line lls g =
     (if \<forall>ll \<in> set lls. tab \<in> set (fst ll)
      then Inr (g\<lparr> rawlines := rawlines g @ map fst lls,
                    rawuids := rawuids g @ map (\<lambda>ll. line_uid (fst ll)) lls \<rparr>)
      else Inl NullDeref)"
  by (induction lls arbitrary: g) (simp_all add: load_raw_line_eq)

lemma fold_load_stat:
  "fold_err load_stat_line lls g =
     (if \<forall>ll \<in> set lls. tab \<in> set (fst ll)
      then Inr (g\<lparr> statlines := statlines g @ map fst lls,
                    statuids := statuids g @ map (\<lambda>ll. line_uid (fst ll)) lls \<rparr>)
      else Inl NullDeref)"
  by (induction lls arbitrary: g) (simp_all add: load_stat_line_eq)

lemma load_raw_eq:
  "load_raw ux f g =
     (if \<forall>l \<in> set (prior_lines ux f). tab \<in> set l
      then Inr (g\<lparr> rawlines := rawlines g @ prior_lines ux f,
                    rawuids := rawuids g @ map line_uid (prior_lines ux f) \<rparr>)
      else Inl NullDeref)"
  by (cases f) (simp_all add: load_raw_def prior_lines_def fold_load_raw comp_def)

lemma load_stat_eq:
  "load_stat ux f g =
     (if \<forall>l \<in> set (prior_lines ux f). tab \<in> set l
      then Inr (g\<lparr> statlines := statlines g @ prior_lines ux f,
                    statuids := statuids g @ map line_uid (prior_lines ux f) \<rparr>)
      else Inl NullDeref)"
  by (cases f) (simp_all add: load_stat_def prior_lines_def fold_load_stat comp_def)

lemma scan_line_cong:
  assumes "start_id h = start_id g" and "end_id h = end_id g" and "max_id h = max_id g"
  shows "scan_line env ll (h, recs) =
           (case scan_line env ll (g, recs) of
              Inl e \<Rightarrow> Inl e
            | Inr gr \<Rightarrow> Inr (h\<lparr>max_id := max_id (fst gr)\<rparr>, snd gr))"
  using assms
  by (auto simp: scan_line_def Let_def split: option.splits prod.splits)

lemma scan_fold_cong:
  assumes "start_id h = start_id g" and "end_id h = end_id g" and "max_id h = max_id g"
  shows "fold_err (scan_line env) lls (h, recs) =
           (case fold_err (scan_line env) lls (g, recs) of
              Inl e \<Rightarrow> Inl e
            | Inr gr \<Rightarrow> Inr (h\<lparr>max_id := max_id (fst gr)\<rparr>, snd gr))"
  using assms
proof (induction lls arbitrary: g h recs)
  case Nil
  then show ?case by simp
next
  case (Cons ll lls)
  show ?case
  proof (cases "scan_line env ll (g, recs)")
    case (Inl e)
    with scan_line_cong [OF Cons.prems, of env ll recs] show ?thesis by simp
  next
    case (Inr gr)
    obtain g1 recs1 where gr: "gr = (g1, recs1)" by (cases gr)
    note g1 = scan_line_Inr [OF Inr [unfolded gr]]
    have se: "start_id g1 = start_id g" "end_id g1 = end_id g"
      by (subst g1, simp)+
    from scan_line_cong [OF Cons.prems, of env ll recs] Inr gr
    have h1: "scan_line env ll (h, recs) = Inr (h\<lparr>max_id := max_id g1\<rparr>, recs1)" by simp
    have "fold_err (scan_line env) lls (h\<lparr>max_id := max_id g1\<rparr>, recs1) =
        (case fold_err (scan_line env) lls (g1, recs1) of
           Inl e \<Rightarrow> Inl e
         | Inr gr \<Rightarrow> Inr (h\<lparr>max_id := max_id g1\<rparr>\<lparr>max_id := max_id (fst gr)\<rparr>, snd gr))"
      by (rule Cons.IH) (simp_all add: se Cons.prems)
    with h1 Inr gr show ?thesis by (simp split: sum.splits)
  qed
qed







lemma masks_of_globals: "masks_of env g r = masks_of env g' r"
  by (simp add: masks_of_def synthesize_def binarize_def)

lemma fresh_globals:
  "fresh_raw env g recs = fresh_raw env g' recs" "fresh_stat env g recs = fresh_stat env g' recs"
  by (simp_all add: fresh_raw_def fresh_stat_def masks_of_globals [of env g _ g'])

subsection \<open>A completed run in closed form\<close>







lemma main_globals_eq:
  "main_globals env (configure m n c) fs =
     (if \<not> (\<forall>l \<in> set (prior_lines (unix env) (raw_tsv fs)). tab \<in> set l) \<or>
         \<not> (\<forall>l \<in> set (prior_lines (unix env) (stats_tsv fs)). tab \<in> set l)
      then Some (Inl NullDeref)
      else
        (case rois_tsv fs of
           None \<Rightarrow> Some (Inl NoManifest)
         | Some manifest \<Rightarrow>
             (case scan_manifest env manifest (configure m n c) of
                Inl e \<Rightarrow> Some (Inl e)
              | Inr gr \<Rightarrow>
                  if \<exists>r \<in> set (snd gr). turn_asserts r (masks_of env initial_globals r)
                  then Some (Inl MeanSizeAssert)
                  else if end_overflow n then Some (Inl SignedOverflow)
                  else if never_ends n (max_id (fst gr)) then None
                  else Some (Inr ((configure m n c)
                    \<lparr> max_id := max_id (fst gr),
                      rawlines := prior_lines (unix env) (raw_tsv fs),
                      statlines := prior_lines (unix env) (stats_tsv fs),
                      rawuids := map line_uid (prior_lines (unix env) (raw_tsv fs)),
                      statuids := map line_uid (prior_lines (unix env) (stats_tsv fs)),
                      rawfile := merged_raw env m n (max_id (fst gr))
                                   (prior_lines (unix env) (raw_tsv fs)) (snd gr),
                      statfile := merged_stat env m n (max_id (fst gr))
                                   (prior_lines (unix env) (stats_tsv fs)) (snd gr) \<rparr>)))))"
proof -
  define Lr where "Lr = prior_lines (unix env) (raw_tsv fs)"
  define Ls where "Ls = prior_lines (unix env) (stats_tsv fs)"
  define g2 where "g2 = (configure m n c)
     \<lparr> rawlines := Lr, rawuids := map line_uid Lr,
       statlines := Ls, statuids := map line_uid Ls \<rparr>"
  have g2: "start_id g2 = start_id (configure m n c)" "end_id g2 = end_id (configure m n c)"
    "max_id g2 = max_id (configure m n c)"
    by (simp_all add: g2_def)
  have scan: "scan_manifest env manifest g2 =
      (case scan_manifest env manifest (configure m n c) of
         Inl e \<Rightarrow> Inl e
       | Inr gr \<Rightarrow> Inr (g2\<lparr>max_id := max_id (fst gr)\<rparr>, snd gr))" for manifest
    unfolding scan_manifest_def by (rule scan_fold_cong [OF g2])
  have proc: "process env recs (g2\<lparr>max_id := M\<rparr>) =
      (if \<exists>r \<in> set recs. turn_asserts r (masks_of env initial_globals r)
       then Some (Inl MeanSizeAssert)
       else if end_overflow n then Some (Inl SignedOverflow)
       else if never_ends n M then None
       else Some (Inr ((configure m n c)
          \<lparr> max_id := M, rawlines := Lr, statlines := Ls,
            rawuids := map line_uid Lr, statuids := map line_uid Ls,
            rawfile := merged_raw env m n M Lr recs,
            statfile := merged_stat env m n M Ls recs \<rparr>)))" for recs M
  proof -
    have fr: "fresh_raw env (g2\<lparr>max_id := M\<rparr>) recs = fresh_raw env initial_globals recs"
      and fs: "fresh_stat env (g2\<lparr>max_id := M\<rparr>) recs = fresh_stat env initial_globals recs"
      by (rule fresh_globals)+
    have mk: "masks_of env (g2\<lparr>max_id := M\<rparr>) r = masks_of env initial_globals r" for r
      by (rule masks_of_globals)
    show ?thesis
      unfolding process_eq fr fs mk
      by (simp add: g2_def merged_raw_def merged_stat_def configure_def initial_globals_def)
  qed
  show ?thesis
    unfolding Lr_def [symmetric] Ls_def [symmetric]
    by (simp add: main_globals_def load_raw_eq load_stat_eq Lr_def [symmetric]
        Ls_def [symmetric] g2_def [symmetric] scan proc
        split: option.splits sum.splits prod.splits)
qed

subsection \<open>The content of the ledgers by uid\<close>







lemma rows_of_append [simp]: "rows_of u (xs @ ys) = rows_of u xs @ rows_of u ys"
  by (simp add: rows_of_def)



subsection \<open>Running twice\<close>


















subsection \<open>Concrete runs\<close>

lemmas eval_lines =
  getlines_Cons getlines_Nil max_line_len_def newline_def tab_def c_str_def NUL_def
lemmas eval_atoi = atoi_def isspace_def isdigit_def clamp_int32_def INT32_MAX_def INT32_MIN_def
lemmas eval_bounds = end_overflow_def never_ends_def INT32_MAX_def INT32_MIN_def

lemma unix_test [simp]: "unix test_env = False" "unix image_env = False"
  by (simp_all add: test_env_def image_env_def)





lemma scan_c:
  "scan_manifest test_env manifest_row_2 (configure 2 2 180) =
     Inr (configure 2 2 180, [record_2])"
  by (simp add: scan_manifest_def manifest_row_2_def eval_lines scan_line_def next_col_def
      parse_columns_def eval_atoi flag_x_def record_2_def test_env_def)

lemma scan_f:
  "scan_manifest image_env manifest_row_2 (configure 2 2 180) =
     Inr (configure 2 2 180, [record_2\<lparr>roi_mat := [[50, 150]]\<rparr>])"
  by (simp add: scan_manifest_def manifest_row_2_def eval_lines scan_line_def next_col_def
      parse_columns_def eval_atoi flag_x_def record_2_def image_env_def test_env_def)


lemma fresh_a:
  "fresh_raw test_env initial_globals [record_2] = [fresh_row_2]"
  "fresh_stat test_env initial_globals [record_2] = []"
  "fresh_raw env initial_globals [] = []" "fresh_stat env initial_globals [] = []"
  by (simp_all add: fresh_raw_def fresh_stat_def masks_of_def record_2_def stats_gate_def
      raw_line_def fresh_row_2_def placeholder_def fore_stats_def backsmean_def backlmean_def
      mean_value_black strpass_def show_int_def show_nat.simps digit_char_def test_env_def)

lemma turn_a: "\<not> turn_asserts record_2 (masks_of env initial_globals record_2)"
  by (simp add: masks_of_def record_2_def placeholder_asserts mat_empty_def mat_rows_def)


lemma tab_fresh_row_2: "tab \<in> set fresh_row_2"
  by (simp add: fresh_row_2_def)
























lemma prior_f:
  "prior_lines False (raw_tsv files_f) = []" "prior_lines False (stats_tsv files_f) = []"
  by (simp_all add: prior_lines_def files_f_def)

lemma run_f:
  "main test_env (configure 2 2 180) files_f =
     Some (Inr (files_f\<lparr> raw_tsv := Some fresh_row_2, stats_tsv := Some [] \<rparr>))"
  unfolding main_def main_globals_eq unix_test prior_f
  by (simp add: files_f_def scan_c fresh_a turn_a eval_bounds
      merged_raw_def merged_stat_def carried_def carried_indices_def)

lemma run_f_image: "main image_env (configure 2 2 180) files_f = Some (Inl MeanSizeAssert)"
  unfolding main_def main_globals_eq unix_test prior_f
  by (simp add: files_f_def scan_f masks_of_def record_2_def placeholder_asserts mat_empty_def
      mat_rows_def mat_cols_def)

text \<open>
  C6 (the code at the failing input): a manifest row whose detection flag is \<^verbatim>\<open>.\<close>,
  with the image of the ROI in place, one row of two pixels. Inference is skipped and
  the masks are the 3 x 3 black placeholders with no foreground, as the claim says. The
  call \<^verbatim>\<open>cv::mean(rois.at(i), back_strict.at(i))\<close> at line 660 then has an image with
  data and a mask of another size, and throws: the turn writes no raw row, and the run
  ends with the exception nobody catches. Without the image file
  (\<^verbatim>\<open>cv::imread\<close> returns an empty matrix) the same manifest row yields the raw row
  the claim describes.
\<close>

theorem failed_detection_throws:
  "\<not> det_success failed_record \<and>
   masks_of image_env initial_globals failed_record = placeholder \<and>
   cv_mean (roi_mat failed_record) (back_strict placeholder) = Inl MeanSizeAssert \<and>
   regen_turn image_env (failed_record, placeholder) initial_globals = Inl MeanSizeAssert \<and>
   scan_manifest image_env manifest_row_2 (configure 2 2 180) =
     Inr (configure 2 2 180, [record_2\<lparr>roi_mat := [[50, 150]]\<rparr>]) \<and>
   main image_env (configure 2 2 180) files_f = Some (Inl MeanSizeAssert) \<and>
   main test_env (configure 2 2 180) files_f =
     Some (Inr (files_f\<lparr> raw_tsv := Some fresh_row_2, stats_tsv := Some [] \<rparr>))"
proof -
  have d: "\<not> det_success failed_record"
    and e: "\<not> mat_empty (roi_mat failed_record)"
    and s: "(mat_rows (roi_mat failed_record), mat_cols (roi_mat failed_record)) \<noteq> (3, 3)"
    by (simp_all add: failed_record_def mat_empty_def mat_rows_def mat_cols_def)
  from d have m: "masks_of image_env initial_globals failed_record = placeholder"
    by (simp add: masks_of_def)
  from failed_detection_throws_with_image [OF d e s, of image_env initial_globals initial_globals]
  have "cv_mean (roi_mat failed_record) (back_strict placeholder) = Inl MeanSizeAssert"
    and "regen_turn image_env (failed_record, placeholder) initial_globals = Inl MeanSizeAssert"
    unfolding m by simp_all
  with d m scan_f run_f_image run_f show ?thesis by simp
qed





end
